theory Spec2Isabelle
  imports Complex_Main
begin

section \<open>Values\<close>

text \<open>
  The values that flow through \<^verbatim>\<open>sample.py\<close>: what \<^verbatim>\<open>json.loads\<close> and
  \<^verbatim>\<open>eval\<close> can hand back, and what the repair receives. A Python \<^verbatim>\<open>str\<close> is a
  \<^typ>\<open>string\<close>; the characters are the code points below 256. A \<^verbatim>\<open>dict\<close> is an
  association list in insertion order, read with \<^const>\<open>map_of\<close>. A float is the exact
  value of its decimal literal (rounding to binary64 is not part of the model), or one of
  the three special values \<^verbatim>\<open>json.loads\<close> accepts.
\<close>

datatype pyfloat = Finite rat | Infinity bool | NaN

datatype pyval =
    PNone
  | PBool bool
  | PInt int
  | PFloat pyfloat
  | PStr string
  | PList "pyval list"
  | PTuple "pyval list"
  | PDict "(pyval \<times> pyval) list"
  | PBuiltin string

text \<open>\<^verbatim>\<open>d[k] = v\<close>: an existing key keeps its place, a new key goes last.\<close>

fun dict_set :: "(pyval \<times> pyval) list \<Rightarrow> pyval \<Rightarrow> pyval \<Rightarrow> (pyval \<times> pyval) list" where
  "dict_set [] k v = [(k, v)]"
| "dict_set ((k', v') # d) k v = (if k' = k then (k, v) # d else (k', v') # dict_set d k v)"

text \<open>\<^verbatim>\<open>isinstance(v, dict)\<close> and \<^verbatim>\<open>isinstance(v, str)\<close>.\<close>

fun is_dict :: "pyval \<Rightarrow> bool" where
  "is_dict (PDict d) = True"
| "is_dict v = False"

fun is_str :: "pyval \<Rightarrow> bool" where
  "is_str (PStr s) = True"
| "is_str v = False"

text \<open>Python's truth value of an object, as \<^verbatim>\<open>if generated_query:\<close> reads it.\<close>

fun truthy :: "pyval \<Rightarrow> bool" where
  "truthy PNone = False"
| "truthy (PBool b) = b"
| "truthy (PInt i) = (i \<noteq> 0)"
| "truthy (PFloat (Finite r)) = (r \<noteq> 0)"
| "truthy (PFloat f) = True"
| "truthy (PStr s) = (s \<noteq> [])"
| "truthy (PList xs) = (xs \<noteq> [])"
| "truthy (PTuple xs) = (xs \<noteq> [])"
| "truthy (PDict d) = (d \<noteq> [])"
| "truthy (PBuiltin n) = True"

section \<open>Character classes of the regular expressions\<close>

text \<open>
  \<^verbatim>\<open>\s\<close> and \<^verbatim>\<open>\w\<close> of Python's \<^verbatim>\<open>re\<close> on \<^verbatim>\<open>str\<close> patterns, restricted to the
  code points below 256: whitespace is 9 to 13, 28 to 32, 133 and 160; a word character is
  an alphanumeric (letters, digits and the numeric characters of Latin-1) or the underscore.
\<close>

definition is_space :: "char \<Rightarrow> bool" where
  "is_space c = (let n = (of_char c :: nat) in
     (9 \<le> n \<and> n \<le> 13) \<or> (28 \<le> n \<and> n \<le> 32) \<or> n = 133 \<or> n = 160)"

definition is_word :: "char \<Rightarrow> bool" where
  "is_word c = (let n = (of_char c :: nat) in
     (48 \<le> n \<and> n \<le> 57) \<or> (65 \<le> n \<and> n \<le> 90) \<or> n = 95 \<or> (97 \<le> n \<and> n \<le> 122) \<or>
     n = 170 \<or> n = 178 \<or> n = 179 \<or> n = 181 \<or> n = 185 \<or> n = 186 \<or>
     (188 \<le> n \<and> n \<le> 190) \<or> (192 \<le> n \<and> n \<le> 214) \<or> (216 \<le> n \<and> n \<le> 246) \<or>
     (248 \<le> n \<and> n \<le> 255))"

definition is_quote :: "char \<Rightarrow> bool" where
  "is_quote c = (c = CHR 0x22 \<or> c = CHR 0x27)"

text \<open>\<^verbatim>\<open>["\']?\<close>: one quote character of either kind is skipped when it is there.\<close>

fun skip_quote :: "string \<Rightarrow> string" where
  "skip_quote [] = []"
| "skip_quote (c # cs) = (if is_quote c then cs else c # cs)"

text \<open>A literal piece of a pattern: the rest of the text after it, when the text starts with it.\<close>

fun strip_prefix :: "string \<Rightarrow> string \<Rightarrow> string option" where
  "strip_prefix [] s = Some s"
| "strip_prefix (p # ps) [] = None"
| "strip_prefix (p # ps) (c # cs) = (if p = c then strip_prefix ps cs else None)"

text \<open>The text without its trailing whitespace.\<close>

definition rstrip_space :: "string \<Rightarrow> string" where
  "rstrip_space s = rev (dropWhile is_space (rev s))"

section \<open>The repair steps on a string\<close>

subsection \<open>Unwrapping a find prefix\<close>

text \<open>
  \<^verbatim>\<open>re.match(r'^\s*["\']?find["\']?\s*:\s*({.*})\s*$', raw_query, re.DOTALL)\<close>, giving
  group 1 when the pattern matches. Every piece before the group has one way to match:
  the character after a run of \<^verbatim>\<open>\s*\<close> must be a quote, \<^verbatim>\<open>f\<close>, \<^verbatim>\<open>:\<close> or \<^verbatim>\<open>{\<close>,
  none of them whitespace, and a quote that is present cannot be left for \<^verbatim>\<open>find\<close> or
  \<^verbatim>\<open>:\<close>. The group starts at the brace; the greedy \<^verbatim>\<open>.*\<close> (any character, with
  DOTALL) followed by \<^verbatim>\<open>}\s*$\<close> ends it at a closing brace after which only whitespace
  is left, which is the last character of the text once trailing whitespace is dropped.
\<close>

definition match_find :: "string \<Rightarrow> string option" where
  "match_find s =
     (case strip_prefix ''find'' (skip_quote (dropWhile is_space s)) of
        None \<Rightarrow> None
      | Some s3 \<Rightarrow>
          (case dropWhile is_space (skip_quote s3) of
             [] \<Rightarrow> None
           | c # s6 \<Rightarrow>
               if c \<noteq> CHR '':'' then None
               else
                 (case dropWhile is_space s6 of
                    [] \<Rightarrow> None
                  | b # s8 \<Rightarrow>
                      if b \<noteq> CHR ''{'' then None
                      else
                        (let body = rstrip_space (b # s8)
                         in if 2 \<le> length body \<and> last body = CHR ''}'' then Some body
                            else None))))"

subsection \<open>A comma where a colon belongs\<close>

text \<open>
  One match of \<^verbatim>\<open>(\{)\s*["\']?(\$\w+)["\']?\s*,\s*([^\}]+)\}\<close> at the start of a text:
  groups 2 (without its dollar sign) and 3, and the text after the match. Up to the comma
  every piece has one way to match. After the comma the greedy \<^verbatim>\<open>\s*\<close> takes all the
  whitespace and \<^verbatim>\<open>[^\}]+\<close> runs to the next closing brace; when only whitespace stands
  before that brace, \<^verbatim>\<open>\s*\<close> gives its last character back to group 3, which must not
  be empty. Without a closing brace in the rest there is no match.
\<close>

definition match_comma :: "string \<Rightarrow> (string \<times> string \<times> string) option" where
  "match_comma t =
     (case t of
        [] \<Rightarrow> None
      | c # t1 \<Rightarrow>
          if c \<noteq> CHR ''{'' then None
          else
            (case skip_quote (dropWhile is_space t1) of
               [] \<Rightarrow> None
             | d # t4 \<Rightarrow>
                 if d \<noteq> CHR ''$'' \<or> takeWhile is_word t4 = [] then None
                 else
                   (case dropWhile is_space (skip_quote (dropWhile is_word t4)) of
                      [] \<Rightarrow> None
                    | k # u \<Rightarrow>
                        if k \<noteq> CHR '','' then None
                        else
                          (let v0 = takeWhile (\<lambda>x. x \<noteq> CHR ''}'') u;
                               r = dropWhile (\<lambda>x. x \<noteq> CHR ''}'') u;
                               v = dropWhile is_space v0
                           in if r = [] \<or> v0 = [] then None
                              else Some (takeWhile is_word t4,
                                         if v = [] then [last v0] else v,
                                         tl r)))))"

lemma length_skip_quote: "length (skip_quote s) \<le> length s"
  by (cases s) auto

lemma match_comma_shorter:
  assumes "match_comma t = Some (w, g, post)"
  shows "length post < length t"
proof -
  from assms obtain t1 where t: "t = CHR ''{'' # t1"
    by (auto simp: match_comma_def split: list.splits if_splits)
  from assms t obtain t4 where t4: "skip_quote (dropWhile is_space t1) = CHR ''$'' # t4"
    by (auto simp: match_comma_def split: list.splits if_splits)
  from assms t t4 obtain u
    where u: "dropWhile is_space (skip_quote (dropWhile is_word t4)) = CHR '','' # u"
    by (auto simp: match_comma_def split: list.splits if_splits)
  from assms t t4 u have post: "post = tl (dropWhile (\<lambda>x. x \<noteq> CHR ''}'') u)"
    by (auto simp: match_comma_def Let_def split: list.splits if_splits)
  have "length post \<le> length u"
    unfolding post using length_dropWhile_le [of "\<lambda>x. x \<noteq> CHR ''}''" u] by simp
  also have "length u < length (skip_quote (dropWhile is_word t4))"
    using length_dropWhile_le [of is_space "skip_quote (dropWhile is_word t4)"] u by simp
  also have "\<dots> \<le> length t4"
    using length_skip_quote [of "dropWhile is_word t4"] length_dropWhile_le [of is_word t4]
    by simp
  also have "length t4 < length t1"
    using length_skip_quote [of "dropWhile is_space t1"] length_dropWhile_le [of is_space t1] t4
    by simp
  finally show ?thesis using t by simp
qed

text \<open>
  \<^verbatim>\<open>re.sub(pattern, r'\1"\2":\3}', raw_query)\<close>: the text is scanned from the left; a
  match is replaced by the brace, the operator in double quotes, a colon, group 3 and a
  closing brace, and the scan goes on after the match; a character where no match starts
  is kept.
\<close>

function comma_fix :: "string \<Rightarrow> string" where
  "comma_fix s =
     (case s of
        [] \<Rightarrow> []
      | c # cs \<Rightarrow>
          (case match_comma s of
             Some (w, g, post) \<Rightarrow>
               [CHR ''{'', CHR 0x22, CHR ''$''] @ w @ [CHR 0x22, CHR '':''] @ g @ [CHR ''}'']
                 @ comma_fix post
           | None \<Rightarrow> c # comma_fix cs))"
  by pat_completeness auto
termination
  by (relation "measure length") (auto dest: match_comma_shorter)

subsection \<open>Trailing commas\<close>

text \<open>
  One match of \<^verbatim>\<open>,(\s*[}\]])\<close> at the start of a text: group 1 and the text after the
  match.
\<close>

definition match_trailing :: "string \<Rightarrow> (string \<times> string) option" where
  "match_trailing t =
     (case t of
        [] \<Rightarrow> None
      | c # t1 \<Rightarrow>
          if c \<noteq> CHR '','' then None
          else
            (case dropWhile is_space t1 of
               [] \<Rightarrow> None
             | b # r \<Rightarrow>
                 if b = CHR ''}'' \<or> b = CHR '']'' then Some (takeWhile is_space t1 @ [b], r)
                 else None))"

lemma match_trailing_shorter:
  assumes "match_trailing t = Some (g, r)"
  shows "length r < length t"
  using assms length_dropWhile_le [of is_space "tl t"]
  unfolding match_trailing_def
  by (cases t) (auto split: list.splits if_splits)

text \<open>\<^verbatim>\<open>re.sub(r',(\s*[}\]])', r'\1', raw_query)\<close>.\<close>

function strip_trailing_commas :: "string \<Rightarrow> string" where
  "strip_trailing_commas s =
     (case s of
        [] \<Rightarrow> []
      | c # cs \<Rightarrow>
          (case match_trailing s of
             Some (g, r) \<Rightarrow> g @ strip_trailing_commas r
           | None \<Rightarrow> c # strip_trailing_commas cs))"
  by pat_completeness auto
termination
  by (relation "measure length") (auto dest: match_trailing_shorter)

subsection \<open>Line breaks\<close>

text \<open>\<^verbatim>\<open>raw_query.replace('\n', ' ')\<close>.\<close>

definition nl_to_space :: "char \<Rightarrow> char" where
  "nl_to_space c = (if c = CHR 0x0A then CHR '' '' else c)"

definition flatten_newlines :: "string \<Rightarrow> string" where
  "flatten_newlines s = map nl_to_space s"

text \<open>The working string after the four steps, as the two parse attempts see it.\<close>

definition find_unwrap :: "string \<Rightarrow> string" where
  "find_unwrap s = (case match_find s of Some body \<Rightarrow> body | None \<Rightarrow> s)"

definition repair_text :: "string \<Rightarrow> string" where
  "repair_text s = flatten_newlines (strip_trailing_commas (comma_fix (find_unwrap s)))"

section \<open>The strict parse\<close>

text \<open>
  \<^verbatim>\<open>json.loads\<close> with its default settings. The text is cut into tokens the way the
  decoder's scanner reads it, and the tokens are parsed with an explicit stack of the
  containers that are open. Whitespace between tokens is space, tab, line feed and carriage
  return. An escape \<^verbatim>\<open>\uXXXX\<close> of a code point from 256 on has no character here: such
  a text is outside the model and is refused.
\<close>

datatype jtoken = JLBrace | JRBrace | JLBracket | JRBracket | JComma | JColon | JAtom pyval

definition is_digit :: "char \<Rightarrow> bool" where
  "is_digit c = (48 \<le> (of_char c :: nat) \<and> (of_char c :: nat) \<le> 57)"

definition digit_val :: "char \<Rightarrow> nat" where
  "digit_val c = of_char c - 48"

definition digits_val :: "string \<Rightarrow> nat" where
  "digits_val ds = foldl (\<lambda>n c. 10 * n + digit_val c) 0 ds"

definition hex_val :: "char \<Rightarrow> nat option" where
  "hex_val c =
     (if is_digit c then Some (of_char c - 48)
      else if 97 \<le> (of_char c :: nat) \<and> (of_char c :: nat) \<le> 102 then Some (of_char c - 87)
      else if 65 \<le> (of_char c :: nat) \<and> (of_char c :: nat) \<le> 70 then Some (of_char c - 55)
      else None)"

definition hex4 :: "char \<Rightarrow> char \<Rightarrow> char \<Rightarrow> char \<Rightarrow> nat option" where
  "hex4 a b c d =
     (case (hex_val a, hex_val b, hex_val c, hex_val d) of
        (Some x, Some y, Some z, Some w) \<Rightarrow> Some (((x * 16 + y) * 16 + z) * 16 + w)
      | _ \<Rightarrow> None)"

text \<open>The character a one-letter escape of a JSON string stands for.\<close>

definition json_unescape :: "char \<Rightarrow> char option" where
  "json_unescape e =
     (if e = CHR 0x22 \<or> e = CHR 0x5C \<or> e = CHR ''/'' then Some e
      else if e = CHR ''b'' then Some (CHR 0x08)
      else if e = CHR ''f'' then Some (CHR 0x0C)
      else if e = CHR ''n'' then Some (CHR 0x0A)
      else if e = CHR ''r'' then Some (CHR 0x0D)
      else if e = CHR ''t'' then Some (CHR 0x09)
      else None)"

text \<open>
  A string, read from after its opening quote: its content and the text after the closing
  quote. A control character inside the string is refused (strict mode).
\<close>

fun json_string :: "string \<Rightarrow> (string \<times> string) option" where
  "json_string [] = None"
| "json_string (c # cs) =
     (if c = CHR 0x22 then Some ([], cs)
      else if c = CHR 0x5C then
        (case cs of
           [] \<Rightarrow> None
         | e # r \<Rightarrow>
             if e = CHR ''u'' then
               (case r of
                  h1 # h2 # h3 # h4 # r' \<Rightarrow>
                    (case hex4 h1 h2 h3 h4 of
                       None \<Rightarrow> None
                     | Some n \<Rightarrow>
                         if n < 256 then
                           (case json_string r' of
                              None \<Rightarrow> None
                            | Some (str, rest) \<Rightarrow> Some (char_of n # str, rest))
                         else None)
                | _ \<Rightarrow> None)
             else
               (case json_unescape e of
                  None \<Rightarrow> None
                | Some x \<Rightarrow>
                    (case json_string r of
                       None \<Rightarrow> None
                     | Some (str, rest) \<Rightarrow> Some (x # str, rest))))
      else if (of_char c :: nat) < 32 then None
      else
        (case json_string cs of
           None \<Rightarrow> None
         | Some (str, rest) \<Rightarrow> Some (c # str, rest)))"

text \<open>
  A number, by the scanner's pattern
  \<^verbatim>\<open>(-?(?:0|[1-9]\d*))(\.\d+)?([eE][-+]?\d+)?\<close>: an \<^verbatim>\<open>int\<close> when it has neither
  fraction nor exponent, a \<^verbatim>\<open>float\<close> otherwise.
\<close>

definition json_int_part :: "string \<Rightarrow> (string \<times> string) option" where
  "json_int_part s =
     (case s of
        [] \<Rightarrow> None
      | c # cs \<Rightarrow>
          if c = CHR ''0'' then Some ([c], cs)
          else if is_digit c then Some (takeWhile is_digit s, dropWhile is_digit s)
          else None)"

definition json_frac_part :: "string \<Rightarrow> (string \<times> string) option" where
  "json_frac_part s =
     (case s of
        [] \<Rightarrow> None
      | c # cs \<Rightarrow>
          if c = CHR ''.'' \<and> takeWhile is_digit cs \<noteq> []
          then Some (takeWhile is_digit cs, dropWhile is_digit cs)
          else None)"

definition json_exp_part :: "string \<Rightarrow> (int \<times> string) option" where
  "json_exp_part s =
     (case s of
        [] \<Rightarrow> None
      | c # cs \<Rightarrow>
          if c = CHR ''e'' \<or> c = CHR ''E'' then
            (let neg = (case cs of [] \<Rightarrow> False | g # _ \<Rightarrow> g = CHR ''-'');
                 ds = (case cs of [] \<Rightarrow> [] | g # r \<Rightarrow> if g = CHR ''-'' \<or> g = CHR ''+'' then r else cs)
             in if takeWhile is_digit ds = [] then None
                else Some ((if neg then - int (digits_val (takeWhile is_digit ds))
                            else int (digits_val (takeWhile is_digit ds))),
                           dropWhile is_digit ds))
          else None)"

text \<open>The value of the decimal literal with integer digits, fraction digits and exponent.\<close>

definition decimal_value :: "string \<Rightarrow> string \<Rightarrow> int \<Rightarrow> rat" where
  "decimal_value ip fp e =
     of_nat (digits_val (ip @ fp)) / 10 ^ length fp
       * (if 0 \<le> e then 10 ^ nat e else 1 / 10 ^ nat (- e))"

definition json_number :: "string \<Rightarrow> (pyval \<times> string) option" where
  "json_number s =
     (let neg = (case s of [] \<Rightarrow> False | c # _ \<Rightarrow> c = CHR ''-'');
          s1 = (if neg then tl s else s)
      in case json_int_part s1 of
           None \<Rightarrow> None
         | Some (ip, r1) \<Rightarrow>
             (let fr = json_frac_part r1;
                  fp = (case fr of None \<Rightarrow> [] | Some (ds, _) \<Rightarrow> ds);
                  r2 = (case fr of None \<Rightarrow> r1 | Some (_, r) \<Rightarrow> r);
                  ex = json_exp_part r2;
                  e = (case ex of None \<Rightarrow> 0 | Some (n, _) \<Rightarrow> n);
                  r3 = (case ex of None \<Rightarrow> r2 | Some (_, r) \<Rightarrow> r)
              in if fr = None \<and> ex = None
                 then Some (PInt (if neg then - int (digits_val ip) else int (digits_val ip)), r3)
                 else Some (PFloat (Finite ((if neg then - 1 else 1) * decimal_value ip fp e)), r3)))"

text \<open>
  A literal or a number at the start of a text, in the order the scanner tries them:
  the three literals, a number, and the three special floats.
\<close>

definition json_literal :: "string \<Rightarrow> (jtoken \<times> string) option" where
  "json_literal s =
     (case strip_prefix ''null'' s of
        Some r \<Rightarrow> Some (JAtom PNone, r)
      | None \<Rightarrow>
     (case strip_prefix ''true'' s of
        Some r \<Rightarrow> Some (JAtom (PBool True), r)
      | None \<Rightarrow>
     (case strip_prefix ''false'' s of
        Some r \<Rightarrow> Some (JAtom (PBool False), r)
      | None \<Rightarrow>
     (case json_number s of
        Some (v, r) \<Rightarrow> Some (JAtom v, r)
      | None \<Rightarrow>
     (case strip_prefix ''NaN'' s of
        Some r \<Rightarrow> Some (JAtom (PFloat NaN), r)
      | None \<Rightarrow>
     (case strip_prefix ''Infinity'' s of
        Some r \<Rightarrow> Some (JAtom (PFloat (Infinity True)), r)
      | None \<Rightarrow>
     (case strip_prefix ''-Infinity'' s of
        Some r \<Rightarrow> Some (JAtom (PFloat (Infinity False)), r)
      | None \<Rightarrow> None)))))))"

text \<open>
  One token at the start of a text that starts with no whitespace: a string, a bracket, a
  comma, a colon, or a literal or number.
\<close>

definition json_token :: "string \<Rightarrow> (jtoken \<times> string) option" where
  "json_token s =
     (case s of
        [] \<Rightarrow> None
      | c # cs \<Rightarrow>
          if c = CHR 0x22 then
            (case json_string cs of None \<Rightarrow> None | Some (str, r) \<Rightarrow> Some (JAtom (PStr str), r))
          else if c = CHR ''{'' then Some (JLBrace, cs)
          else if c = CHR ''}'' then Some (JRBrace, cs)
          else if c = CHR ''['' then Some (JLBracket, cs)
          else if c = CHR '']'' then Some (JRBracket, cs)
          else if c = CHR '','' then Some (JComma, cs)
          else if c = CHR '':'' then Some (JColon, cs)
          else json_literal s)"

definition is_json_space :: "char \<Rightarrow> bool" where
  "is_json_space c = (c = CHR '' '' \<or> c = CHR 0x09 \<or> c = CHR 0x0A \<or> c = CHR 0x0D)"

lemma strip_prefix_append: "strip_prefix p s = Some r \<Longrightarrow> s = p @ r"
  by (induction p s rule: strip_prefix.induct) (auto split: if_splits)

lemma json_string_shorter: "json_string cs = Some (str, r) \<Longrightarrow> length r < length cs"
proof (induction cs arbitrary: str r rule: json_string.induct)
  case 1
  then show ?case by simp
next
  case (2 c cs)
  show ?case
  proof (cases "c = CHR 0x22")
    case True
    with "2.prems" show ?thesis by simp
  next
    case nq: False
    show ?thesis
    proof (cases "c = CHR 0x5C")
      case False
      with nq "2.prems" obtain str' where "json_string cs = Some (str', r)"
        by (auto split: if_splits option.splits)
      from "2.IH"(3) [OF nq False _ this] "2.prems" nq False show ?thesis
        by (auto split: if_splits)
    next
      case bs: True
      with nq "2.prems" obtain e r0 where cs: "cs = e # r0"
        by (cases cs) auto
      show ?thesis
      proof (cases "e = CHR ''u''")
        case True
        with nq bs cs "2.prems" obtain h1 h2 h3 h4 r' n str'
          where r0: "r0 = h1 # h2 # h3 # h4 # r'" and h: "hex4 h1 h2 h3 h4 = Some n" "n < 256"
            and rec: "json_string r' = Some (str', r)"
          by (auto split: list.splits option.splits if_splits)
        have "length r < length r'"
          using "2.IH"(1) [OF nq bs cs True, of h1 "h2 # h3 # h4 # r'" h2 "h3 # h4 # r'" h3
              "h4 # r'" h4 r' n str' r] r0 h rec
          by simp
        with cs r0 show ?thesis by simp
      next
        case False
        with nq bs cs "2.prems" obtain x str'
          where x: "json_unescape e = Some x" and rec: "json_string r0 = Some (str', r)"
          by (auto split: option.splits)
        from "2.IH"(2) [OF nq bs cs False x rec] cs show ?thesis by simp
      qed
    qed
  qed
qed


lemma json_int_part_shorter: "json_int_part s = Some (ip, r) \<Longrightarrow> length r < length s"
  using length_dropWhile_le [of is_digit "tl s"]
  by (cases s) (auto simp: json_int_part_def split: if_splits)

lemma json_frac_part_shorter: "json_frac_part s = Some (fp, r) \<Longrightarrow> length r < length s"
  using length_dropWhile_le [of is_digit "tl s"]
  by (cases s) (auto simp: json_frac_part_def split: if_splits)

lemma json_exp_part_shorter: "json_exp_part s = Some (e, r) \<Longrightarrow> length r < length s"
proof (cases s)
  case Nil
  then show "json_exp_part s = Some (e, r) \<Longrightarrow> length r < length s"
    by (simp add: json_exp_part_def)
next
  case (Cons c cs)
  assume a: "json_exp_part s = Some (e, r)"
  show "length r < length s"
  proof (cases cs)
    case Nil
    with a Cons show ?thesis by (auto simp: json_exp_part_def Let_def split: if_splits)
  next
    case (Cons g r0)
    with a \<open>s = c # cs\<close> length_dropWhile_le [of is_digit r0] length_dropWhile_le [of is_digit cs]
    show ?thesis by (auto simp: json_exp_part_def Let_def split: if_splits)
  qed
qed

lemma json_number_shorter:
  assumes "json_number s = Some (v, r)"
  shows "length r < length s"
proof -
  define s1 where "s1 = (if (case s of [] \<Rightarrow> False | c # _ \<Rightarrow> c = CHR ''-'') then tl s else s)"
  have s1: "length s1 \<le> length s" by (simp add: s1_def)
  from assms obtain ip r1 where ip: "json_int_part s1 = Some (ip, r1)"
    by (auto simp: json_number_def Let_def s1_def split: option.splits)
  define r2 where "r2 = (case json_frac_part r1 of None \<Rightarrow> r1 | Some (_, r) \<Rightarrow> r)"
  have r2: "length r2 \<le> length r1"
    by (auto simp: r2_def split: option.splits dest: json_frac_part_shorter less_imp_le)
  have r: "r = (case json_exp_part r2 of None \<Rightarrow> r2 | Some (_, r) \<Rightarrow> r)"
    using assms ip by (auto simp: json_number_def Let_def s1_def r2_def split: option.splits if_splits)
  have "length r \<le> length r2"
    by (auto simp: r split: option.splits dest: json_exp_part_shorter less_imp_le)
  with r2 json_int_part_shorter [OF ip] s1 show ?thesis by simp
qed

lemma json_literal_shorter:
  assumes "json_literal s = Some (t, r)"
  shows "length r < length s"
proof -
  have sp: "length r < length s" if "strip_prefix (p # ps) s = Some r" for p ps
    using strip_prefix_append [OF that] by simp
  from assms show ?thesis
    unfolding json_literal_def
    by (auto split: option.splits prod.splits dest: sp json_number_shorter)
qed

lemma json_token_shorter:
  assumes "json_token s = Some (t, r)"
  shows "length r < length s"
proof (cases s)
  case Nil
  with assms show ?thesis by (simp add: json_token_def)
next
  case (Cons c cs)
  show ?thesis
  proof (cases "c = CHR 0x22")
    case True
    with assms Cons obtain str where "json_string cs = Some (str, r)"
      by (auto simp: json_token_def split: option.splits)
    from json_string_shorter [OF this] Cons show ?thesis by simp
  next
    case nq: False
    show ?thesis
    proof (cases "c = CHR ''{'' \<or> c = CHR ''}'' \<or> c = CHR ''['' \<or> c = CHR '']'' \<or> c = CHR '','' \<or> c = CHR '':''")
      case True
      with assms Cons nq have "r = cs"
        by (auto simp: json_token_def split: if_splits)
      with Cons show ?thesis by simp
    next
      case False
      with assms Cons nq have "json_literal s = Some (t, r)"
        by (simp add: json_token_def)
      then show ?thesis by (rule json_literal_shorter)
    qed
  qed
qed

text \<open>The tokens of a whole text; \<^const>\<open>None\<close> when some piece of it is no token.\<close>

function json_lex :: "string \<Rightarrow> jtoken list option" where
  "json_lex s =
     (case dropWhile is_json_space s of
        [] \<Rightarrow> Some []
      | c # cs \<Rightarrow>
          (case json_token (c # cs) of
             None \<Rightarrow> None
           | Some (t, r) \<Rightarrow>
               (case json_lex r of
                  None \<Rightarrow> None
                | Some ts \<Rightarrow> Some (t # ts))))"
  by pat_completeness auto
termination
proof (relation "measure length")
  show "wf (measure length)" by simp
next
  fix s :: string and c cs x t r
  assume a: "dropWhile is_json_space s = c # cs" "json_token (c # cs) = Some x" "(t, r) = x"
  then have "length r < length (c # cs)"
    using json_token_shorter [of "c # cs" t r] by simp
  also have "\<dots> \<le> length s"
    using length_dropWhile_le [of is_json_space s] a(1) by simp
  finally show "(r, s) \<in> measure length" by simp
qed

text \<open>
  The parser keeps the containers that are open on a stack: an array with the elements
  read so far, an object with its entries so far and the key whose value is being read.
  Its mode says what may come next.
\<close>

datatype jframe = FArr "pyval list" | FObj "(pyval \<times> pyval) list" string

datatype jmode =
    MValue
  | MArrFirst
  | MObjFirst
  | MKey "(pyval \<times> pyval) list"
  | MAfter pyval

text \<open>A token where a value must start: an atom is a value, a bracket opens a container.\<close>

fun json_start :: "jtoken \<Rightarrow> jmode option" where
  "json_start (JAtom v) = Some (MAfter v)"
| "json_start JLBracket = Some MArrFirst"
| "json_start JLBrace = Some MObjFirst"
| "json_start t = None"

text \<open>
  An object is built from its pairs in order, so a repeated key keeps the place of its
  first occurrence and the value of its last. After the last value nothing may follow.
\<close>

fun json_run :: "jmode \<Rightarrow> jframe list \<Rightarrow> jtoken list \<Rightarrow> pyval option" where
  "json_run MValue st (t # ts) =
     (case json_start t of None \<Rightarrow> None | Some m \<Rightarrow> json_run m st ts)"
| "json_run MArrFirst st (t # ts) =
     (if t = JRBracket then json_run (MAfter (PList [])) st ts
      else (case json_start t of None \<Rightarrow> None | Some m \<Rightarrow> json_run m (FArr [] # st) ts))"
| "json_run MObjFirst st (JRBrace # ts) = json_run (MAfter (PDict [])) st ts"
| "json_run MObjFirst st (JAtom (PStr k) # JColon # ts) = json_run MValue (FObj [] k # st) ts"
| "json_run (MKey es) st (JAtom (PStr k) # JColon # ts) = json_run MValue (FObj es k # st) ts"
| "json_run (MAfter v) [] [] = Some v"
| "json_run (MAfter v) (FArr xs # st) (JComma # ts) = json_run MValue (FArr (xs @ [v]) # st) ts"
| "json_run (MAfter v) (FArr xs # st) (JRBracket # ts) = json_run (MAfter (PList (xs @ [v]))) st ts"
| "json_run (MAfter v) (FObj es k # st) (JComma # ts) =
     json_run (MKey (dict_set es (PStr k) v)) st ts"
| "json_run (MAfter v) (FObj es k # st) (JRBrace # ts) =
     json_run (MAfter (PDict (dict_set es (PStr k) v))) st ts"
| "json_run m st ts = None"

text \<open>\<^verbatim>\<open>json.loads(s)\<close>: the value, or \<^const>\<open>None\<close> where it raises.\<close>

definition json_loads :: "string \<Rightarrow> pyval option" where
  "json_loads s = (case json_lex s of None \<Rightarrow> None | Some ts \<Rightarrow> json_run MValue [] ts)"

section \<open>The permissive parse\<close>

text \<open>
  \<^verbatim>\<open>eval(raw_query, {}, {})\<close>. Python's expression language is modelled on a fragment:
  numbers, strings, \<^verbatim>\<open>True\<close>, \<^verbatim>\<open>False\<close>, \<^verbatim>\<open>None\<close>, names, list, tuple and dict
  displays, unary minus, and calls with positional arguments. The outcome is a value, one
  of Python's exceptions, or \<open>Unsupported\<close> for a text that leaves the fragment
  (operators, attribute access, subscripts, comprehensions, set displays, dict keys that
  are not strings, other literal forms, calls of built-ins that are not modelled): for
  such a text the model says nothing about what Python does.
\<close>

datatype py_error = SyntaxError | NameError string | TypeError | Unsupported

datatype ptoken =
    TName string | TNum pyval | TStr string
  | TLPar | TRPar | TLBrack | TRBrack | TLBrace | TRBrace | TComma | TColon | TMinus

datatype pyexpr =
    EConst pyval
  | EName string
  | EList "pyexpr list"
  | ETuple "pyexpr list"
  | EDict "(pyexpr \<times> pyexpr) list"
  | ECall pyexpr "pyexpr list"
  | ENeg pyexpr

subsection \<open>Tokens\<close>

definition is_name_start :: "char \<Rightarrow> bool" where
  "is_name_start c = (let n = (of_char c :: nat) in
     (65 \<le> n \<and> n \<le> 90) \<or> n = 95 \<or> (97 \<le> n \<and> n \<le> 122))"

definition is_name_char :: "char \<Rightarrow> bool" where
  "is_name_char c = (is_name_start c \<or> is_digit c)"

text \<open>The character a one-letter escape of a Python string literal stands for.\<close>

definition py_unescape :: "char \<Rightarrow> char option" where
  "py_unescape e =
     (if e = CHR 0x5C \<or> e = CHR 0x27 \<or> e = CHR 0x22 then Some e
      else if e = CHR ''n'' then Some (CHR 0x0A)
      else if e = CHR ''t'' then Some (CHR 0x09)
      else if e = CHR ''r'' then Some (CHR 0x0D)
      else if e = CHR ''a'' then Some (CHR 0x07)
      else if e = CHR ''b'' then Some (CHR 0x08)
      else if e = CHR ''f'' then Some (CHR 0x0C)
      else if e = CHR ''v'' then Some (CHR 0x0B)
      else None)"

text \<open>
  A string literal, read from after its opening quote \<open>q\<close>: its content and the text
  after the closing quote. A literal that is not closed is a syntax error; a line break
  inside it and the longer escapes are outside the fragment.
\<close>

fun py_string :: "char \<Rightarrow> string \<Rightarrow> py_error + (string \<times> string)" where
  "py_string q [] = Inl SyntaxError"
| "py_string q (c # cs) =
     (if c = q then Inr ([], cs)
      else if c = CHR 0x5C then
        (case cs of
           [] \<Rightarrow> Inl SyntaxError
         | e # r \<Rightarrow>
             (case py_unescape e of
                None \<Rightarrow> Inl Unsupported
              | Some x \<Rightarrow>
                  (case py_string q r of
                     Inl err \<Rightarrow> Inl err
                   | Inr (str, rest) \<Rightarrow> Inr (x # str, rest))))
      else if c = CHR 0x0A \<or> c = CHR 0x0D then Inl Unsupported
      else
        (case py_string q cs of
           Inl err \<Rightarrow> Inl err
         | Inr (str, rest) \<Rightarrow> Inr (c # str, rest)))"

text \<open>
  A decimal number literal at the start of a text: digits, an optional point with digits,
  an optional exponent. An integer literal with a leading zero is a syntax error unless
  it is zero. A literal that goes on with a letter, an underscore or a point (other
  bases, digit separators, imaginary numbers, attribute access) is outside the fragment.
\<close>

definition py_number :: "string \<Rightarrow> py_error + (pyval \<times> string)" where
  "py_number s =
     (let ip = takeWhile is_digit s;
          r1 = dropWhile is_digit s;
          has_point = (case r1 of [] \<Rightarrow> False | c # _ \<Rightarrow> c = CHR ''.'');
          fp = (if has_point then takeWhile is_digit (tl r1) else []);
          r2 = (if has_point then dropWhile is_digit (tl r1) else r1);
          ex = json_exp_part r2;
          e = (case ex of None \<Rightarrow> 0 | Some (n, _) \<Rightarrow> n);
          r3 = (case ex of None \<Rightarrow> r2 | Some (_, r) \<Rightarrow> r)
      in if ip = [] \<and> fp = [] then Inl SyntaxError
         else if (case r3 of [] \<Rightarrow> False | c # _ \<Rightarrow> is_name_char c \<or> c = CHR ''.'')
         then Inl Unsupported
         else if \<not> has_point \<and> ex = None then
           (if hd ip = CHR ''0'' \<and> digits_val ip \<noteq> 0 then Inl SyntaxError
            else Inr (PInt (int (digits_val ip)), r3))
         else Inr (PFloat (Finite (decimal_value ip fp e)), r3))"

text \<open>
  The pieces of a token scan. A bracket or a comma is a token by itself. A quote opens a
  string literal (three quotes in a row open a triple-quoted one, outside the fragment).
  A name runs over letters, digits and underscores; a name that touches a quote is a
  string prefix, outside the fragment.
\<close>

definition py_punct :: "char \<Rightarrow> ptoken option" where
  "py_punct c =
     (if c = CHR ''('' then Some TLPar
      else if c = CHR '')'' then Some TRPar
      else if c = CHR ''['' then Some TLBrack
      else if c = CHR '']'' then Some TRBrack
      else if c = CHR ''{'' then Some TLBrace
      else if c = CHR ''}'' then Some TRBrace
      else if c = CHR '','' then Some TComma
      else None)"

definition py_quoted :: "char \<Rightarrow> string \<Rightarrow> py_error + (ptoken \<times> string)" where
  "py_quoted q cs =
     (if (case cs of d # e # _ \<Rightarrow> d = q \<and> e = q | _ \<Rightarrow> False) then Inl Unsupported
      else (case py_string q cs of Inl err \<Rightarrow> Inl err | Inr (str, r) \<Rightarrow> Inr (TStr str, r)))"

definition py_name :: "char \<Rightarrow> string \<Rightarrow> py_error + (ptoken \<times> string)" where
  "py_name c cs =
     (let r = dropWhile is_name_char cs
      in if (case r of [] \<Rightarrow> False | d # _ \<Rightarrow> is_quote d) then Inl Unsupported
         else Inr (TName (c # takeWhile is_name_char cs), r))"

definition py_numeric :: "string \<Rightarrow> py_error + (ptoken \<times> string)" where
  "py_numeric s = (case py_number s of Inl err \<Rightarrow> Inl err | Inr (v, r) \<Rightarrow> Inr (TNum v, r))"

text \<open>
  One token at the start of a text that starts with no whitespace. A colon or a minus
  sign that is the start of a longer operator is outside the fragment, and so is a point
  that starts no number. The characters \<^verbatim>\<open>$\<close>, \<^verbatim>\<open>?\<close> and the backquote stand in
  no Python token; every other character that is not listed starts a token outside the
  fragment.
\<close>

definition py_token :: "string \<Rightarrow> py_error + (ptoken \<times> string)" where
  "py_token s =
     (case s of
        [] \<Rightarrow> Inl SyntaxError
      | c # cs \<Rightarrow>
          (case py_punct c of
             Some t \<Rightarrow> Inr (t, cs)
           | None \<Rightarrow>
               if c = CHR '':'' then
                 (if (case cs of [] \<Rightarrow> False | d # _ \<Rightarrow> d = CHR ''='') then Inl Unsupported
                  else Inr (TColon, cs))
               else if c = CHR ''-'' then
                 (if (case cs of [] \<Rightarrow> False | d # _ \<Rightarrow> d = CHR ''='' \<or> d = CHR ''>'')
                  then Inl Unsupported
                  else Inr (TMinus, cs))
               else if is_quote c then py_quoted c cs
               else if is_name_start c then py_name c cs
               else if is_digit c then py_numeric s
               else if c = CHR ''.'' then
                 (if (case cs of [] \<Rightarrow> False | d # _ \<Rightarrow> is_digit d) then py_numeric s
                  else Inl Unsupported)
               else if c = CHR ''$'' \<or> c = CHR ''?'' \<or> c = CHR 0x60 then Inl SyntaxError
               else Inl Unsupported))"

lemma py_string_shorter: "py_string q cs = Inr (str, r) \<Longrightarrow> length r < length cs"
proof (induction q cs arbitrary: str r rule: py_string.induct)
  case (1 q)
  then show ?case by simp
next
  case (2 q c cs)
  show ?case
  proof (cases "c = q")
    case True
    with "2.prems" show ?thesis by simp
  next
    case nq: False
    show ?thesis
    proof (cases "c = CHR 0x5C")
      case False
      with nq "2.prems" obtain str' where rec: "py_string q cs = Inr (str', r)"
        by (auto split: if_splits sum.splits)
      from nq False "2.prems" have nl: "\<not> (c = CHR 0x0A \<or> c = CHR 0x0D)"
        by (auto split: if_splits)
      from "2.IH"(2) [OF nq False nl rec] show ?thesis by simp
    next
      case bs: True
      with nq "2.prems" obtain e r0 where cs: "cs = e # r0"
        by (cases cs) auto
      with nq bs "2.prems" obtain x str'
        where x: "py_unescape e = Some x" and rec: "py_string q r0 = Inr (str', r)"
        by (auto split: option.splits sum.splits)
      from "2.IH"(1) [OF nq bs cs x rec] cs show ?thesis by simp
    qed
  qed
qed

lemma py_number_shorter:
  assumes "py_number s = Inr (v, r)"
  shows "length r < length s"
proof -
  let ?r1 = "dropWhile is_digit s"
  let ?hp = "(case ?r1 of [] \<Rightarrow> False | c # _ \<Rightarrow> c = CHR ''.'')"
  let ?fp = "(if ?hp then takeWhile is_digit (tl ?r1) else [])"
  let ?r2 = "(if ?hp then dropWhile is_digit (tl ?r1) else ?r1)"
  let ?r3 = "(case json_exp_part ?r2 of None \<Rightarrow> ?r2 | Some (_, r) \<Rightarrow> r)"
  have unf: "py_number s =
    (if takeWhile is_digit s = [] \<and> ?fp = [] then Inl SyntaxError
     else if (case ?r3 of [] \<Rightarrow> False | c # _ \<Rightarrow> is_name_char c \<or> c = CHR ''.'')
     then Inl Unsupported
     else if \<not> ?hp \<and> json_exp_part ?r2 = None then
       (if hd (takeWhile is_digit s) = CHR ''0'' \<and> digits_val (takeWhile is_digit s) \<noteq> 0
        then Inl SyntaxError
        else Inr (PInt (int (digits_val (takeWhile is_digit s))), ?r3))
     else Inr (PFloat (Finite (decimal_value (takeWhile is_digit s) ?fp
        (case json_exp_part ?r2 of None \<Rightarrow> 0 | Some (n, _) \<Rightarrow> n))), ?r3))"
    unfolding py_number_def Let_def by (rule refl)
  from assms have r: "r = ?r3"
    unfolding unf by (auto split: if_splits)
  from assms have ne: "\<not> (takeWhile is_digit s = [] \<and> ?fp = [])"
    unfolding unf by (auto split: if_splits)
  have l3: "length ?r3 \<le> length ?r2"
    by (cases "json_exp_part ?r2") (auto dest: json_exp_part_shorter less_imp_le)
  have l1: "length ?r1 \<le> length s"
    by (rule length_dropWhile_le)
  show ?thesis
  proof (cases ?hp)
    case True
    then have ne1: "?r1 \<noteq> []" by (cases ?r1) simp_all
    have "length r \<le> length ?r2" unfolding r by (rule l3)
    also have "length ?r2 \<le> length (tl ?r1)"
      using True length_dropWhile_le [of is_digit "tl ?r1"] by simp
    also have "length (tl ?r1) < length ?r1" using ne1 by (cases ?r1) auto
    also note l1
    finally show ?thesis .
  next
    case False
    then have f: "?fp = []" and r2: "?r2 = ?r1" by simp_all
    with ne have "takeWhile is_digit s \<noteq> []" by simp
    then have lt: "length ?r1 < length s"
      by (cases s) (auto split: if_splits intro: le_imp_less_Suc length_dropWhile_le)
    have "length r \<le> length ?r2" unfolding r by (rule l3)
    also have "length ?r2 = length ?r1" using r2 by simp
    also note lt
    finally show ?thesis .
  qed
qed

lemma py_quoted_shorter: "py_quoted q cs = Inr (t, r) \<Longrightarrow> length r < length cs"
  unfolding py_quoted_def
  by (auto split: if_splits sum.splits dest: py_string_shorter)

lemma py_name_shorter: "py_name c cs = Inr (t, r) \<Longrightarrow> length r \<le> length cs"
  unfolding py_name_def Let_def
  by (auto split: if_splits intro: length_dropWhile_le)

lemma py_numeric_shorter: "py_numeric s = Inr (t, r) \<Longrightarrow> length r < length s"
  unfolding py_numeric_def
  by (auto split: sum.splits dest: py_number_shorter)

lemma py_token_shorter:
  assumes "py_token s = Inr (t, r)"
  shows "length r < length s"
proof (cases s)
  case Nil
  with assms show ?thesis by (simp add: py_token_def)
next
  case (Cons c cs)
  have "r = cs \<or> py_quoted c cs = Inr (t, r) \<or> py_name c cs = Inr (t, r)
      \<or> py_numeric s = Inr (t, r)"
    using assms Cons unfolding py_token_def
    by (simp split: option.splits if_splits)
  then show ?thesis
    using Cons py_quoted_shorter [of c cs t r] py_name_shorter [of c cs t r]
      py_numeric_shorter [of s t r]
    by auto
qed

definition is_py_space :: "char \<Rightarrow> bool" where
  "is_py_space c = (c = CHR '' '' \<or> c = CHR 0x09 \<or> c = CHR 0x0C)"

text \<open>The tokens of a whole text.\<close>

function py_lex :: "string \<Rightarrow> py_error + ptoken list" where
  "py_lex s =
     (case dropWhile is_py_space s of
        [] \<Rightarrow> Inr []
      | c # cs \<Rightarrow>
          (case py_token (c # cs) of
             Inl err \<Rightarrow> Inl err
           | Inr (t, r) \<Rightarrow>
               (case py_lex r of
                  Inl err \<Rightarrow> Inl err
                | Inr ts \<Rightarrow> Inr (t # ts))))"
  by pat_completeness auto
termination
proof (relation "measure length")
  show "wf (measure length)" by simp
next
  fix s :: string and c cs x t r
  assume a: "dropWhile is_py_space s = c # cs" "py_token (c # cs) = Inr x" "(t, r) = x"
  then have "length r < length (c # cs)"
    using py_token_shorter [of "c # cs" t r] by simp
  also have "\<dots> \<le> length s"
    using length_dropWhile_le [of is_py_space s] a(1) by simp
  finally show "(r, s) \<in> measure length" by simp
qed

text \<open>String literals that stand side by side are one string.\<close>

fun merge_strs :: "ptoken list \<Rightarrow> ptoken list" where
  "merge_strs (TStr a # TStr b # ts) = merge_strs (TStr (a @ b) # ts)"
| "merge_strs (t # ts) = t # merge_strs ts"
| "merge_strs [] = []"

subsection \<open>Expressions\<close>

text \<open>
  The parser keeps the constructs that are open on a stack: the expression list of the
  whole text (a tuple once a comma has been seen), a parenthesis, a list display, a dict
  display waiting for a key or for the value of a key, the argument list of a call, and a
  minus sign waiting for its operand.
\<close>

datatype pframe =
    FTop "pyexpr list" bool
  | FParen "pyexpr list" bool
  | FLst "pyexpr list"
  | FDictKey "(pyexpr \<times> pyexpr) list"
  | FDictVal "(pyexpr \<times> pyexpr) list" pyexpr
  | FCall pyexpr "pyexpr list"
  | FNeg

datatype pmode = PExp | PExpOrClose | PAft pyexpr

definition py_keywords :: "string list" where
  "py_keywords =
     [''False'', ''None'', ''True'', ''and'', ''as'', ''assert'', ''async'', ''await'',
      ''break'', ''class'', ''continue'', ''def'', ''del'', ''elif'', ''else'', ''except'',
      ''finally'', ''for'', ''from'', ''global'', ''if'', ''import'', ''in'', ''is'',
      ''lambda'', ''nonlocal'', ''not'', ''or'', ''pass'', ''raise'', ''return'', ''try'',
      ''while'', ''with'', ''yield'']"

text \<open>A token where an expression must start.\<close>

fun py_start :: "ptoken \<Rightarrow> pframe list \<Rightarrow> py_error + (pmode \<times> pframe list)" where
  "py_start (TName n) st =
     (if n = ''True'' then Inr (PAft (EConst (PBool True)), st)
      else if n = ''False'' then Inr (PAft (EConst (PBool False)), st)
      else if n = ''None'' then Inr (PAft (EConst PNone), st)
      else if n \<in> set py_keywords then Inl Unsupported
      else Inr (PAft (EName n), st))"
| "py_start (TNum v) st = Inr (PAft (EConst v), st)"
| "py_start (TStr x) st = Inr (PAft (EConst (PStr x)), st)"
| "py_start TMinus st = Inr (PExp, FNeg # st)"
| "py_start TLPar st = Inr (PExpOrClose, FParen [] False # st)"
| "py_start TLBrack st = Inr (PExpOrClose, FLst [] # st)"
| "py_start TLBrace st = Inr (PExpOrClose, FDictKey [] # st)"
| "py_start t st = Inl SyntaxError"

text \<open>A closing bracket right after the opening one or after a comma.\<close>

fun py_close :: "ptoken \<Rightarrow> pframe list \<Rightarrow> (pmode \<times> pframe list) option" where
  "py_close TRPar (FParen xs tup # st) = Some (PAft (ETuple xs), st)"
| "py_close TRBrack (FLst xs # st) = Some (PAft (EList xs), st)"
| "py_close TRBrace (FDictKey es # st) = Some (PAft (EDict es), st)"
| "py_close TRPar (FCall f args # st) = Some (PAft (ECall f args), st)"
| "py_close t st = None"

text \<open>The minus signs that wait for the operand \<open>e\<close> apply to it once it has ended.\<close>

fun unwind :: "pyexpr \<Rightarrow> pframe list \<Rightarrow> pyexpr \<times> pframe list" where
  "unwind e (FNeg # st) = unwind (ENeg e) st"
| "unwind e st = (e, st)"

text \<open>A token after the expression \<open>e\<close>, which has ended, in the construct that is open.\<close>

fun py_next :: "pyexpr \<Rightarrow> pframe list \<Rightarrow> ptoken \<Rightarrow> py_error + (pmode \<times> pframe list)" where
  "py_next e (FTop xs tup # st) TComma = Inr (PExpOrClose, FTop (xs @ [e]) True # st)"
| "py_next e (FParen xs tup # st) TComma = Inr (PExpOrClose, FParen (xs @ [e]) True # st)"
| "py_next e (FParen xs tup # st) TRPar = Inr (PAft (if tup then ETuple (xs @ [e]) else e), st)"
| "py_next e (FLst xs # st) TComma = Inr (PExpOrClose, FLst (xs @ [e]) # st)"
| "py_next e (FLst xs # st) TRBrack = Inr (PAft (EList (xs @ [e])), st)"
| "py_next e (FDictKey es # st) TColon = Inr (PExp, FDictVal es e # st)"
| "py_next e (FDictKey es # st) TComma = Inl Unsupported"
| "py_next e (FDictKey es # st) TRBrace = Inl Unsupported"
| "py_next e (FDictVal es k # st) TComma = Inr (PExpOrClose, FDictKey (es @ [(k, e)]) # st)"
| "py_next e (FDictVal es k # st) TRBrace = Inr (PAft (EDict (es @ [(k, e)])), st)"
| "py_next e (FCall f args # st) TComma = Inr (PExpOrClose, FCall f (args @ [e]) # st)"
| "py_next e (FCall f args # st) TRPar = Inr (PAft (ECall f (args @ [e])), st)"
| "py_next e st t = Inl SyntaxError"

text \<open>
  A token after an expression: an opening parenthesis calls it; a square bracket
  (subscript), a minus sign (subtraction) or a keyword (an operator) leaves the fragment;
  another name is a syntax error.
\<close>

definition py_after :: "pyexpr \<Rightarrow> pframe list \<Rightarrow> ptoken \<Rightarrow> py_error + (pmode \<times> pframe list)" where
  "py_after e st t =
     (case t of
        TLPar \<Rightarrow> Inr (PExpOrClose, FCall e [] # st)
      | TLBrack \<Rightarrow> Inl Unsupported
      | TMinus \<Rightarrow> Inl Unsupported
      | TName n \<Rightarrow> if n \<in> set py_keywords then Inl Unsupported else Inl SyntaxError
      | _ \<Rightarrow> (case unwind e st of (e', st') \<Rightarrow> py_next e' st' t))"

definition py_step :: "pmode \<Rightarrow> pframe list \<Rightarrow> ptoken \<Rightarrow> py_error + (pmode \<times> pframe list)" where
  "py_step m st t =
     (case m of
        PExp \<Rightarrow> py_start t st
      | PExpOrClose \<Rightarrow> (case py_close t st of Some r \<Rightarrow> Inr r | None \<Rightarrow> py_start t st)
      | PAft e \<Rightarrow> py_after e st t)"

text \<open>The end of the text: every bracket must be closed.\<close>

definition py_finish :: "pmode \<Rightarrow> pframe list \<Rightarrow> py_error + pyexpr" where
  "py_finish m st =
     (case m of
        PExp \<Rightarrow> Inl SyntaxError
      | PExpOrClose \<Rightarrow>
          (case st of
             [FTop xs tup] \<Rightarrow> if tup then Inr (ETuple xs) else Inl SyntaxError
           | _ \<Rightarrow> Inl SyntaxError)
      | PAft e \<Rightarrow>
          (case unwind e st of
             (e', [FTop xs tup]) \<Rightarrow> Inr (if tup then ETuple (xs @ [e']) else e')
           | _ \<Rightarrow> Inl SyntaxError))"

fun py_run :: "pmode \<Rightarrow> pframe list \<Rightarrow> ptoken list \<Rightarrow> py_error + pyexpr" where
  "py_run m st [] = py_finish m st"
| "py_run m st (t # ts) =
     (case py_step m st t of Inl err \<Rightarrow> Inl err | Inr (m', st') \<Rightarrow> py_run m' st' ts)"

definition py_parse :: "ptoken list \<Rightarrow> py_error + pyexpr" where
  "py_parse ts = py_run PExp [FTop [] False] ts"

subsection \<open>Evaluation\<close>

text \<open>
  \<^verbatim>\<open>eval\<close> is called with an empty dict of globals and an empty dict of locals. Python
  then puts its module of built-ins into the globals, so a name is looked up in the two
  empty dicts and after them among the built-ins. The names of the built-in functions and
  types are listed; the exception classes and constants among the built-ins are not.
\<close>

definition builtin_names :: "string list" where
  "builtin_names =
     [''abs'', ''aiter'', ''all'', ''anext'', ''any'', ''ascii'', ''bin'', ''bool'',
      ''breakpoint'', ''bytearray'', ''bytes'', ''callable'', ''chr'', ''classmethod'',
      ''compile'', ''complex'', ''delattr'', ''dict'', ''dir'', ''divmod'', ''enumerate'',
      ''eval'', ''exec'', ''filter'', ''float'', ''format'', ''frozenset'', ''getattr'',
      ''globals'', ''hasattr'', ''hash'', ''help'', ''hex'', ''id'', ''input'', ''int'',
      ''isinstance'', ''issubclass'', ''iter'', ''len'', ''list'', ''locals'', ''map'',
      ''max'', ''memoryview'', ''min'', ''next'', ''object'', ''oct'', ''open'', ''ord'',
      ''pow'', ''print'', ''property'', ''range'', ''repr'', ''reversed'', ''round'', ''set'',
      ''setattr'', ''slice'', ''sorted'', ''staticmethod'', ''str'', ''sum'', ''super'',
      ''tuple'', ''type'', ''vars'', ''zip'', ''__import__'']"

definition lookup_name :: "string \<Rightarrow> py_error + pyval" where
  "lookup_name n = (if n \<in> set builtin_names then Inr (PBuiltin n) else Inl (NameError n))"

text \<open>The built-ins whose calls are modelled: \<^verbatim>\<open>len\<close>, \<^verbatim>\<open>abs\<close> and \<^verbatim>\<open>dict()\<close>.\<close>

fun py_len :: "pyval \<Rightarrow> py_error + pyval" where
  "py_len (PStr s) = Inr (PInt (int (length s)))"
| "py_len (PList xs) = Inr (PInt (int (length xs)))"
| "py_len (PTuple xs) = Inr (PInt (int (length xs)))"
| "py_len (PDict d) = Inr (PInt (int (length d)))"
| "py_len v = Inl TypeError"

fun py_abs :: "pyval \<Rightarrow> py_error + pyval" where
  "py_abs (PInt i) = Inr (PInt \<bar>i\<bar>)"
| "py_abs (PBool b) = Inr (PInt (if b then 1 else 0))"
| "py_abs (PFloat (Finite r)) = Inr (PFloat (Finite \<bar>r\<bar>))"
| "py_abs (PFloat (Infinity b)) = Inr (PFloat (Infinity True))"
| "py_abs (PFloat NaN) = Inr (PFloat NaN)"
| "py_abs v = Inl TypeError"

definition call_builtin :: "string \<Rightarrow> pyval list \<Rightarrow> py_error + pyval" where
  "call_builtin n args =
     (if n = ''len'' then (case args of [v] \<Rightarrow> py_len v | _ \<Rightarrow> Inl TypeError)
      else if n = ''abs'' then (case args of [v] \<Rightarrow> py_abs v | _ \<Rightarrow> Inl TypeError)
      else if n = ''dict'' \<and> args = [] then Inr (PDict [])
      else Inl Unsupported)"

definition py_call :: "pyval \<Rightarrow> pyval list \<Rightarrow> py_error + pyval" where
  "py_call f args = (case f of PBuiltin n \<Rightarrow> call_builtin n args | _ \<Rightarrow> Inl TypeError)"

fun py_neg :: "pyval \<Rightarrow> py_error + pyval" where
  "py_neg (PInt i) = Inr (PInt (- i))"
| "py_neg (PBool b) = Inr (PInt (if b then - 1 else 0))"
| "py_neg (PFloat (Finite r)) = Inr (PFloat (Finite (- r)))"
| "py_neg (PFloat (Infinity b)) = Inr (PFloat (Infinity (\<not> b)))"
| "py_neg (PFloat NaN) = Inr (PFloat NaN)"
| "py_neg v = Inl TypeError"

text \<open>
  A key of a dict display: a string is stored; a list or a dict cannot be hashed; any
  other key is outside the fragment.
\<close>

fun dict_key :: "pyval \<Rightarrow> py_error + pyval" where
  "dict_key (PStr s) = Inr (PStr s)"
| "dict_key (PList xs) = Inl TypeError"
| "dict_key (PDict d) = Inl TypeError"
| "dict_key v = Inl Unsupported"

text \<open>
  The items of a display are evaluated from left to right, a key before its value; the
  dict is then filled in that order.
\<close>

function eval_expr :: "pyexpr \<Rightarrow> py_error + pyval"
  and eval_list :: "pyexpr list \<Rightarrow> py_error + pyval list"
  and eval_items :: "(pyexpr \<times> pyexpr) list \<Rightarrow> py_error + (pyval \<times> pyval) list"
where
  "eval_expr (EConst v) = Inr v"
| "eval_expr (EName n) = lookup_name n"
| "eval_expr (EList es) = (case eval_list es of Inl err \<Rightarrow> Inl err | Inr vs \<Rightarrow> Inr (PList vs))"
| "eval_expr (ETuple es) = (case eval_list es of Inl err \<Rightarrow> Inl err | Inr vs \<Rightarrow> Inr (PTuple vs))"
| "eval_expr (EDict kvs) =
     (case eval_items kvs of
        Inl err \<Rightarrow> Inl err
      | Inr ps \<Rightarrow> Inr (PDict (foldl (\<lambda>d (k, v). dict_set d k v) [] ps)))"
| "eval_expr (ECall f args) =
     (case eval_expr f of
        Inl err \<Rightarrow> Inl err
      | Inr fv \<Rightarrow> (case eval_list args of Inl err \<Rightarrow> Inl err | Inr vs \<Rightarrow> py_call fv vs))"
| "eval_expr (ENeg e) = (case eval_expr e of Inl err \<Rightarrow> Inl err | Inr v \<Rightarrow> py_neg v)"
| "eval_list [] = Inr []"
| "eval_list (e # es) =
     (case eval_expr e of
        Inl err \<Rightarrow> Inl err
      | Inr v \<Rightarrow> (case eval_list es of Inl err \<Rightarrow> Inl err | Inr vs \<Rightarrow> Inr (v # vs)))"
| "eval_items [] = Inr []"
| "eval_items ((k, v) # kvs) =
     (case eval_expr k of
        Inl err \<Rightarrow> Inl err
      | Inr kv \<Rightarrow>
          (case eval_expr v of
             Inl err \<Rightarrow> Inl err
           | Inr vv \<Rightarrow>
               (case dict_key kv of
                  Inl err \<Rightarrow> Inl err
                | Inr key \<Rightarrow>
                    (case eval_items kvs of
                       Inl err \<Rightarrow> Inl err
                     | Inr ps \<Rightarrow> Inr ((key, vv) # ps)))))"
  by pat_completeness auto
termination
  by (relation "measure (case_sum size (case_sum (size_list size)
        (size_list (size_prod size size))))") auto

text \<open>\<^verbatim>\<open>eval(s, {}, {})\<close>.\<close>

definition py_eval :: "string \<Rightarrow> py_error + pyval" where
  "py_eval s =
     (case py_lex s of
        Inl err \<Rightarrow> Inl err
      | Inr ts \<Rightarrow> (case py_parse (merge_strs ts) of Inl err \<Rightarrow> Inl err | Inr e \<Rightarrow> eval_expr e))"

section \<open>The repair\<close>

text \<open>
  \<^verbatim>\<open>fix_llm_query(raw_query)\<close>. A dict that holds a dict under the key \<^verbatim>\<open>"find"\<close>
  gives that inner dict, any other dict is returned as it is. A string goes through the
  four text steps and then through the two parse attempts; every exception of a parse
  attempt is swallowed, and when both fail the working string is returned. A value that
  is neither a dict nor a string is returned as it is.
\<close>

definition parse_attempts :: "string \<Rightarrow> pyval" where
  "parse_attempts w =
     (case json_loads w of
        Some v \<Rightarrow> v
      | None \<Rightarrow> (case py_eval w of Inr v \<Rightarrow> v | Inl err \<Rightarrow> PStr w))"

definition fix_llm_query :: "pyval \<Rightarrow> pyval" where
  "fix_llm_query raw_query =
     (case raw_query of
        PDict d \<Rightarrow>
          (case map_of d (PStr ''find'') of
             Some (PDict f) \<Rightarrow> PDict f
           | _ \<Rightarrow> PDict d)
      | PStr s \<Rightarrow> parse_attempts (repair_text s)
      | _ \<Rightarrow> raw_query)"

section \<open>Extracting the candidate from the model's reply\<close>

text \<open>
  \<^verbatim>\<open>re.search(r"```(?:json)?\s*([\s\S]+?)```", raw_response)\<close>, giving group 1.
  The lazy group takes one character and then as few more as possible before a closing
  fence; \<open>before_fence\<close> is the text before the first fence of a text.
\<close>

fun before_fence :: "string \<Rightarrow> string option" where
  "before_fence [] = None"
| "before_fence (c # cs) =
     (if strip_prefix ''```'' (c # cs) \<noteq> None then Some []
      else (case before_fence cs of None \<Rightarrow> None | Some g \<Rightarrow> Some (c # g)))"

definition lazy_group :: "string \<Rightarrow> string option" where
  "lazy_group u =
     (case u of
        [] \<Rightarrow> None
      | c # cs \<Rightarrow> (case before_fence cs of None \<Rightarrow> None | Some g \<Rightarrow> Some (c # g)))"

text \<open>
  \<^verbatim>\<open>\s*\<close> before the group is greedy: it takes a whitespace character when the rest
  can still match, and gives it to the group otherwise.
\<close>

fun ws_group :: "string \<Rightarrow> string option" where
  "ws_group [] = None"
| "ws_group (c # cs) =
     (if is_space c then
        (case ws_group cs of Some g \<Rightarrow> Some g | None \<Rightarrow> lazy_group (c # cs))
      else lazy_group (c # cs))"

text \<open>One match at the start of a text: with the tag \<^verbatim>\<open>json\<close> first, then without it.\<close>

definition match_fence :: "string \<Rightarrow> string option" where
  "match_fence t =
     (case strip_prefix ''```'' t of
        None \<Rightarrow> None
      | Some t1 \<Rightarrow>
          (case strip_prefix ''json'' t1 of
             None \<Rightarrow> ws_group t1
           | Some t2 \<Rightarrow> (case ws_group t2 of Some g \<Rightarrow> Some g | None \<Rightarrow> ws_group t1)))"

fun search_fence :: "string \<Rightarrow> string option" where
  "search_fence [] = None"
| "search_fence (c # cs) =
     (case match_fence (c # cs) of Some g \<Rightarrow> Some g | None \<Rightarrow> search_fence cs)"

text \<open>
  \<^verbatim>\<open>re.search(r"(\{[\s\S]+\})", raw_response)\<close>: at an opening brace the greedy
  \<^verbatim>\<open>[\s\S]+\<close> runs to the end of the text and comes back to the last closing brace,
  before which it must keep one character at least.
\<close>

definition match_brace :: "string \<Rightarrow> string option" where
  "match_brace t =
     (case t of
        [] \<Rightarrow> None
      | c # t1 \<Rightarrow>
          if c \<noteq> CHR ''{'' then None
          else
            (let body = rev (dropWhile (\<lambda>x. x \<noteq> CHR ''}'') (rev t1))
             in if 2 \<le> length body then Some (c # body) else None))"

fun search_brace :: "string \<Rightarrow> string option" where
  "search_brace [] = None"
| "search_brace (c # cs) =
     (case match_brace (c # cs) of Some g \<Rightarrow> Some g | None \<Rightarrow> search_brace cs)"

text \<open>
  The value of \<^verbatim>\<open>cleaned\<close> in \<^verbatim>\<open>generate_mongodb_query\<close>: the fenced block, else
  the brace span, else the whole reply.
\<close>

definition cleaned :: "string \<Rightarrow> string" where
  "cleaned raw_response =
     (case search_fence raw_response of
        Some g \<Rightarrow> g
      | None \<Rightarrow> (case search_brace raw_response of Some g \<Rightarrow> g | None \<Rightarrow> raw_response))"


section \<open>The orchestration\<close>

text \<open>
  What the program does to the outside is kept in a record: the lines printed, the
  entries appended to the log file, the filters handed to the collection's
  \<^verbatim>\<open>find\<close>, the files written, and the lines still to be read from standard input.
  A printed line that formats a value keeps the value.
\<close>

datatype outline =
    Line string
  | QueryLine pyval
  | ErrorLine string
  | Table "pyval list"

record world =
  stdout :: "outline list"
  log_file :: "(string \<times> pyval) list"
  find_calls :: "pyval list"
  files :: "(string \<times> pyval list) list"
  stdin :: "string list"

definition print :: "outline \<Rightarrow> world \<Rightarrow> world" where
  "print l w = w\<lparr>stdout := stdout w @ [l]\<rparr>"

text \<open>\<^verbatim>\<open>str.strip()\<close>.\<close>

definition strip :: "string \<Rightarrow> string" where
  "strip s = rstrip_space (dropWhile is_space s)"

text \<open>
  \<^verbatim>\<open>generate_mongodb_query(user_input, collection_fields)\<close>. The language model is
  outside the program: \<open>llm\<close> gives, for the question and the fields, the text that
  \<^verbatim>\<open>llm.invoke(prompt)\<close> returns, or \<^const>\<open>None\<close> when building the prompt or the call
  raises. An exception is reported and \<^verbatim>\<open>None\<close> is returned.
\<close>

definition generate_mongodb_query ::
  "(string \<Rightarrow> string list \<Rightarrow> string option) \<Rightarrow> string \<Rightarrow> string list \<Rightarrow> world \<Rightarrow> pyval \<times> world" where
  "generate_mongodb_query llm user_input collection_fields w =
     (case llm user_input collection_fields of
        None \<Rightarrow> (PNone, print (ErrorLine ''Error generating query with LLM'') w)
      | Some reply \<Rightarrow> (fix_llm_query (PStr (cleaned (strip reply))), w))"

text \<open>A document without its \<^verbatim>\<open>_id\<close> field, as the data frame shows it.\<close>

fun drop_id :: "pyval \<Rightarrow> pyval" where
  "drop_id (PDict d) = PDict (filter (\<lambda>(k, v). k \<noteq> PStr ''_id'') d)"
| "drop_id v = v"

text \<open>
  \<^verbatim>\<open>retrieve_and_present_data(..., mongodb_query, output_format, output_filename)\<close>.
  The collection is outside the program: \<open>db\<close> gives the documents that
  \<^verbatim>\<open>collection.find(query)\<close> yields, or \<^const>\<open>None\<close> when the call raises. A query
  that is a string is repaired once more; a query that is no dict after that is reported
  and nothing is looked up. The result is the data frame's rows, or \<^const>\<open>None\<close>.
\<close>

definition ensure_dict :: "pyval \<Rightarrow> pyval" where
  "ensure_dict mongodb_query =
     (if is_str mongodb_query then fix_llm_query mongodb_query else mongodb_query)"

definition present :: "pyval list \<Rightarrow> string \<Rightarrow> string option \<Rightarrow> world \<Rightarrow> pyval list option \<times> world" where
  "present results output_format output_filename w =
     (if results \<noteq> [] then
        (let w1 = print (Line ''Retrieved Data:'') w;
             df = map drop_id results
         in if output_format = ''display'' then (Some df, print (Table df) w1)
            else if output_format = ''save'' \<and> output_filename \<noteq> None \<and> output_filename \<noteq> Some []
            then (Some df,
                  print (Line ''Data saved'') (w1\<lparr>files := files w1 @ [(the output_filename, df)]\<rparr>))
            else (None, print (Line ''Invalid output format or filename provided.'') w1))
      else (Some [], print (Line ''No data found matching the query.'') w))"

definition retrieve_and_present_data ::
  "(pyval \<Rightarrow> pyval list option) \<Rightarrow> pyval \<Rightarrow> string \<Rightarrow> string option \<Rightarrow> world \<Rightarrow> pyval list option \<times> world" where
  "retrieve_and_present_data db mongodb_query output_format output_filename w =
     (let query = ensure_dict mongodb_query
      in if \<not> is_dict query
         then (None, print (Line ''Error: Generated MongoDB query is not a valid dictionary.'') w)
         else
           (let w1 = w\<lparr>find_calls := find_calls w @ [query]\<rparr>
            in case db query of
                 None \<Rightarrow> (None, print (ErrorLine ''Error retrieving data from MongoDB'') w1)
               | Some results \<Rightarrow> present results output_format output_filename w1))"

text \<open>
  \<^verbatim>\<open>input(...)\<close> takes the next line of standard input; at the end of the input it
  raises, and nothing in \<^verbatim>\<open>main\<close> catches that.
\<close>

definition input :: "world \<Rightarrow> (string \<times> world) option" where
  "input w = (case stdin w of [] \<Rightarrow> None | l # ls \<Rightarrow> Some (l, w\<lparr>stdin := ls\<rparr>))"

text \<open>\<^verbatim>\<open>str.lower()\<close> on the code points below 256.\<close>

definition lower_char :: "char \<Rightarrow> char" where
  "lower_char c = (let n = (of_char c :: nat) in
     if (65 \<le> n \<and> n \<le> 90) \<or> (192 \<le> n \<and> n \<le> 222 \<and> n \<noteq> 215) then char_of (n + 32) else c)"

definition lower :: "string \<Rightarrow> string" where
  "lower s = map lower_char s"

text \<open>
  One turn of the loop of \<^verbatim>\<open>main\<close> for a question that is not \<^verbatim>\<open>exit\<close>: the query
  is generated; a query that Python takes for true is printed, logged and run with the
  output format the user chooses; for any other one the failure is reported. The result
  is \<^const>\<open>None\<close> when standard input ends in the middle of the turn.
\<close>

definition main_step ::
  "(string \<Rightarrow> string list \<Rightarrow> string option) \<Rightarrow> (pyval \<Rightarrow> pyval list option) \<Rightarrow> string list \<Rightarrow> string \<Rightarrow> world \<Rightarrow> world option" where
  "main_step llm db collection_fields user_question w =
     (case generate_mongodb_query llm user_question collection_fields w of
        (generated_query, w1) \<Rightarrow>
          if truthy generated_query then
            (let w2 = print (QueryLine generated_query) w1;
                 w3 = w2\<lparr>log_file := log_file w2 @ [(user_question, generated_query)]\<rparr>
             in case input w3 of
                  None \<Rightarrow> None
                | Some (choice, w4) \<Rightarrow>
                    if lower choice = ''save'' then
                      (case input w4 of
                         None \<Rightarrow> None
                       | Some (output_filename, w5) \<Rightarrow>
                           Some (snd (retrieve_and_present_data db generated_query (lower choice)
                                        (Some output_filename) w5)))
                    else Some (snd (retrieve_and_present_data db generated_query (lower choice) None w4)))
          else Some (print (Line ''Failed to generate a query. Please try again.'') w1))"

section \<open>Notions of the specification\<close>

text \<open>
  A value is wrapped when it is a mapping that holds a mapping under the key
  \<^verbatim>\<open>"find"\<close>.
\<close>

definition find_wrapped :: "pyval \<Rightarrow> bool" where
  "find_wrapped v =
     (case v of
        PDict d \<Rightarrow> (case map_of d (PStr ''find'') of Some (PDict f) \<Rightarrow> True | _ \<Rightarrow> False)
      | _ \<Rightarrow> False)"

text \<open>
  The spec's pattern for the find prefix, in its own words: the whole string is an optional
  quote, the key \<^verbatim>\<open>find\<close>, an optional quote, a colon, and a body in braces that runs
  to the end of the string; whitespace may stand at the start, before and after the
  colon, and at the end. Between the braces of the body any characters may stand.
\<close>

definition opt_quote :: "string \<Rightarrow> bool" where
  "opt_quote q = (q = [] \<or> (\<exists>c. q = [c] \<and> is_quote c))"

definition find_wrapper_text :: "string \<Rightarrow> string \<Rightarrow> bool" where
  "find_wrapper_text s body =
     (\<exists>ws1 q1 q2 ws2 ws3 inner ws4.
        s = ws1 @ q1 @ ''find'' @ q2 @ ws2 @ '':'' @ ws3 @ body @ ws4 \<and>
        body = ''{'' @ inner @ ''}'' \<and>
        list_all is_space ws1 \<and> opt_quote q1 \<and> opt_quote q2 \<and>
        list_all is_space ws2 \<and> list_all is_space ws3 \<and> list_all is_space ws4)"






text \<open>The world before anything has happened, with nothing left to read.\<close>

definition w0 :: world where
  "w0 = \<lparr>stdout = [], log_file = [], find_calls = [], files = [], stdin = []\<rparr>"

section \<open>Properties of the repair\<close>

subsection \<open>A dict given to the repair\<close>

text \<open>
  Claim C5. For every mapping \<open>m\<close> given to the repair: when \<open>m\<close> holds a mapping
  \<open>f\<close> under the key \<^verbatim>\<open>"find"\<close>, the repair returns exactly \<open>f\<close>; when \<open>m\<close> holds no
  mapping under that key, the repair returns \<open>m\<close> unchanged.
\<close>

theorem fix_llm_query_dict:
  "(map_of m (PStr ''find'') = Some (PDict f) \<longrightarrow> fix_llm_query (PDict m) = PDict f) \<and>
   ((\<forall>g. map_of m (PStr ''find'') \<noteq> Some (PDict g)) \<longrightarrow> fix_llm_query (PDict m) = PDict m)"
proof (intro conjI impI)
  assume "map_of m (PStr ''find'') = Some (PDict f)"
  then show "fix_llm_query (PDict m) = PDict f"
    by (simp add: fix_llm_query_def)
next
  assume none: "\<forall>g. map_of m (PStr ''find'') \<noteq> Some (PDict g)"
  show "fix_llm_query (PDict m) = PDict m"
  proof (cases "map_of m (PStr ''find'')")
    case None
    then show ?thesis by (simp add: fix_llm_query_def)
  next
    case (Some v)
    with none have "\<not> is_dict v" by (cases v) auto
    with Some show ?thesis by (cases v) (simp_all add: fix_llm_query_def)
  qed
qed

theorem fix_llm_query_dict_witness:
  "fix_llm_query (PDict [(PStr ''find'', PDict [(PStr ''a'', PInt 1)])]) = PDict [(PStr ''a'', PInt 1)] \<and>
   fix_llm_query (PDict [(PStr ''find'', PInt 1)]) = PDict [(PStr ''find'', PInt 1)] \<and>
   fix_llm_query (PDict [(PStr ''a'', PInt 1)]) = PDict [(PStr ''a'', PInt 1)]"
  using fix_llm_query_dict [of "[(PStr ''find'', PDict [(PStr ''a'', PInt 1)])]" "[(PStr ''a'', PInt 1)]"]
    fix_llm_query_dict [of "[(PStr ''find'', PInt 1)]"]
    fix_llm_query_dict [of "[(PStr ''a'', PInt 1)]"]
  by simp

subsection \<open>The find wrapper\<close>


text \<open>
  Claim C2, as stated: whenever the repair returns a mapping, that mapping is not wrapped
  in an outer \<^verbatim>\<open>"find"\<close> key. It fails for a mapping that is wrapped twice: the repair
  takes one wrapper off and returns the inner one.
\<close>

theorem find_wrapper_counterexample:
  "\<not> (\<forall>raw. is_dict (fix_llm_query raw) \<longrightarrow> \<not> find_wrapped (fix_llm_query raw))"
proof
  assume a: "\<forall>raw. is_dict (fix_llm_query raw) \<longrightarrow> \<not> find_wrapped (fix_llm_query raw)"
  have "fix_llm_query (PDict [(PStr ''find'', PDict [(PStr ''find'', PDict [])])])
      = PDict [(PStr ''find'', PDict [])]"
    by (simp add: fix_llm_query_def)
  with a [rule_format, of "PDict [(PStr ''find'', PDict [(PStr ''find'', PDict [])])]"]
  show False by (simp add: find_wrapped_def)
qed

text \<open>
  Claim C2, amended. For every mapping \<open>m\<close> given to the repair, one wrapper is taken
  off and no more: the returned mapping is wrapped exactly when the mapping that \<open>m\<close>
  holds under \<^verbatim>\<open>"find"\<close> is itself wrapped.
\<close>

theorem fix_llm_query_unwraps_once:
  "find_wrapped (fix_llm_query (PDict m)) \<longleftrightarrow>
     (\<exists>f. map_of m (PStr ''find'') = Some (PDict f) \<and> find_wrapped (PDict f))"
proof (cases "map_of m (PStr ''find'')")
  case None
  then show ?thesis by (simp add: fix_llm_query_def find_wrapped_def)
next
  case (Some v)
  then show ?thesis
    by (cases v) (simp_all add: fix_llm_query_def find_wrapped_def)
qed

theorem fix_llm_query_unwraps_once_witness:
  "find_wrapped (fix_llm_query (PDict [(PStr ''find'', PDict [(PStr ''find'', PDict [])])])) \<and>
   \<not> find_wrapped (fix_llm_query (PDict [(PStr ''find'', PDict [(PStr ''a'', PInt 1)])]))"
  using fix_llm_query_unwraps_once [of "[(PStr ''find'', PDict [(PStr ''find'', PDict [])])]"]
    fix_llm_query_unwraps_once [of "[(PStr ''find'', PDict [(PStr ''a'', PInt 1)])]"]
  by (simp add: find_wrapped_def)

subsection \<open>Repairing twice\<close>






subsection \<open>What the permissive parse can reach\<close>

text \<open>
  Claim C1 says that the fallback can build data literals only and resolves no external
  name. The code evaluates the text with Python's built-ins in reach: the text
  \<^verbatim>\<open>len([1, 2])\<close> is no literal, the name \<^verbatim>\<open>len\<close> is resolved and called, and the
  repair returns 2; \<^verbatim>\<open>dict()\<close> builds a mapping by a call; the name
  \<^verbatim>\<open>__import__\<close> is resolved to the built-in function.
\<close>

theorem eval_resolves_builtins:
  \<open>fix_llm_query (PStr ''len([1, 2])'') = PInt 2 \<and>
   fix_llm_query (PStr ''dict()'') = PDict [] \<and>
   fix_llm_query (PStr ''__import__'') = PBuiltin ''__import__''\<close>
  by code_simp

subsection \<open>The find prefix\<close>

lemma space_not_quote: "is_space c \<Longrightarrow> \<not> is_quote c"
  by (auto simp: is_space_def is_quote_def)

lemma dropWhile_spaces:
  assumes "list_all is_space ws" and "\<not> is_space c"
  shows "dropWhile is_space (ws @ c # r) = c # r"
  using assms by (induction ws) auto

lemma skip_opt_quote:
  assumes "opt_quote q" and "\<not> is_quote c"
  shows "skip_quote (q @ c # r) = c # r"
  using assms by (auto simp: opt_quote_def)

lemma skip_quote_decomp: "\<exists>q. opt_quote q \<and> s = q @ skip_quote s"
proof (cases s)
  case Nil
  then show ?thesis by (auto simp: opt_quote_def)
next
  case (Cons c cs)
  show ?thesis
  proof (cases "is_quote c")
    case True
    with Cons have "opt_quote [c] \<and> s = [c] @ skip_quote s" by (simp add: opt_quote_def)
    then show ?thesis by blast
  next
    case False
    with Cons have "opt_quote [] \<and> s = [] @ skip_quote s" by (simp add: opt_quote_def)
    then show ?thesis by blast
  qed
qed

lemma rstrip_append:
  assumes "list_all is_space ws" and "\<not> is_space c"
  shows "rstrip_space (xs @ c # ws) = xs @ [c]"
proof -
  have "dropWhile is_space (rev ws @ c # rev xs) = c # rev xs"
    using assms by (intro dropWhile_spaces) (simp_all add: list_all_iff)
  then show ?thesis by (simp add: rstrip_space_def)
qed

lemma rstrip_decomp: "\<exists>ws. list_all is_space ws \<and> s = rstrip_space s @ ws"
proof -
  have "rev (dropWhile is_space (rev s)) @ rev (takeWhile is_space (rev s))
      = rev (takeWhile is_space (rev s) @ dropWhile is_space (rev s))"
    by (simp only: rev_append)
  also have "\<dots> = s"
    by (simp only: takeWhile_dropWhile_id rev_rev_ident)
  finally have "s = rstrip_space s @ rev (takeWhile is_space (rev s))"
    by (simp add: rstrip_space_def)
  moreover have "list_all is_space (rev (takeWhile is_space (rev s)))"
    by (simp add: list_all_iff) (meson set_takeWhileD)
  ultimately show ?thesis by blast
qed

lemma spaces_takeWhile: "list_all is_space (takeWhile is_space s)"
  by (simp add: list_all_iff) (meson set_takeWhileD)

lemma match_find_complete:
  assumes "find_wrapper_text s body"
  shows "match_find s = Some body"
proof -
  from assms obtain ws1 q1 q2 ws2 ws3 inner ws4 where
    s: "s = ws1 @ q1 @ ''find'' @ q2 @ ws2 @ '':'' @ ws3 @ body @ ws4" and
    body: "body = ''{'' @ inner @ ''}''" and
    sp: "list_all is_space ws1" "list_all is_space ws2" "list_all is_space ws3"
      "list_all is_space ws4" and
    q: "opt_quote q1" "opt_quote q2"
    unfolding find_wrapper_text_def by blast
  let ?r3 = "q2 @ ws2 @ '':'' @ ws3 @ body @ ws4"
  let ?r6 = "ws3 @ body @ ws4"
  have nf: "\<not> is_space CHR ''f''" "\<not> is_quote CHR ''f''" "\<not> is_space CHR '':''"
    "\<not> is_quote CHR '':''" "\<not> is_space CHR ''{''" "\<not> is_space CHR ''}''"
    by (simp_all add: is_space_def is_quote_def)
  have 1: "dropWhile is_space s = q1 @ ''find'' @ ?r3"
  proof (cases "q1 = []")
    case True
    then show ?thesis unfolding s using dropWhile_spaces [OF sp(1) nf(1)] by simp
  next
    case False
    with q(1) obtain c where c: "q1 = [c]" "is_quote c" by (auto simp: opt_quote_def)
    then have "\<not> is_space c" using space_not_quote by blast
    from dropWhile_spaces [OF sp(1) this] c show ?thesis unfolding s by simp
  qed
  have 2: "skip_quote (q1 @ ''find'' @ ?r3) = ''find'' @ ?r3"
    using skip_opt_quote [OF q(1) nf(2)] by simp
  have 3: "strip_prefix ''find'' (''find'' @ ?r3) = Some ?r3" by simp
  have 4: "dropWhile is_space (skip_quote ?r3) = CHR '':'' # ?r6"
  proof (cases "q2 = []")
    case False
    with q(2) obtain c where c: "q2 = [c]" "is_quote c" by (auto simp: opt_quote_def)
    then have "skip_quote ?r3 = ws2 @ CHR '':'' # ?r6" by simp
    with dropWhile_spaces [OF sp(2) nf(3)] show ?thesis by simp
  next
    case True
    have "skip_quote (ws2 @ CHR '':'' # ?r6) = ws2 @ CHR '':'' # ?r6"
    proof (cases ws2)
      case Nil
      then show ?thesis using nf(4) by simp
    next
      case (Cons a as)
      with sp(2) have "\<not> is_quote a" using space_not_quote by simp
      with Cons show ?thesis by simp
    qed
    with True dropWhile_spaces [OF sp(2) nf(3)] show ?thesis by simp
  qed
  have 5: "dropWhile is_space ?r6 = CHR ''{'' # inner @ ''}'' @ ws4"
    using dropWhile_spaces [OF sp(3) nf(5)] by (simp add: body)
  have 6: "rstrip_space (CHR ''{'' # inner @ ''}'' @ ws4) = body"
    using rstrip_append [OF sp(4) nf(6), of "CHR ''{'' # inner"] by (simp add: body)
  have 7: "2 \<le> length body \<and> last body = CHR ''}''" by (simp add: body)
  show ?thesis
    unfolding match_find_def 1 2 3 option.case 4 list.case 5 6 Let_def
    using 7 by simp
qed

lemma match_find_sound:
  assumes "match_find s = Some body"
  shows "find_wrapper_text s body"
proof -
  define ws1 where "ws1 = takeWhile is_space s"
  obtain q1 where q1: "opt_quote q1" "dropWhile is_space s = q1 @ skip_quote (dropWhile is_space s)"
    using skip_quote_decomp by blast
  from assms obtain s3 where s3: "strip_prefix ''find'' (skip_quote (dropWhile is_space s)) = Some s3"
    by (auto simp: match_find_def split: option.splits)
  obtain q2 where q2: "opt_quote q2" "s3 = q2 @ skip_quote s3"
    using skip_quote_decomp by blast
  define ws2 where "ws2 = takeWhile is_space (skip_quote s3)"
  from assms s3 obtain s6 where s6: "dropWhile is_space (skip_quote s3) = CHR '':'' # s6"
    by (auto simp: match_find_def split: list.splits if_splits)
  define ws3 where "ws3 = takeWhile is_space s6"
  from assms s3 s6 obtain s8 where s8: "dropWhile is_space s6 = CHR ''{'' # s8"
    by (auto simp: match_find_def split: list.splits if_splits)
  from assms s3 s6 s8 have b: "body = rstrip_space (CHR ''{'' # s8)"
    "2 \<le> length body" "last body = CHR ''}''"
    by (auto simp: match_find_def Let_def split: if_splits)
  obtain ws4 where ws4: "list_all is_space ws4" "CHR ''{'' # s8 = body @ ws4"
    using rstrip_decomp [of "CHR ''{'' # s8"] b(1) by auto
  from b(2) ws4(2) have hd: "hd body = CHR ''{''" by (cases body) auto
  from b(2) obtain x y rest where xy: "body = x # rest @ [y]"
    by (cases body; cases "tl body" rule: rev_cases) auto
  with hd b(3) have body: "body = ''{'' @ rest @ ''}''" by simp
  have "s = ws1 @ dropWhile is_space s" by (simp add: ws1_def)
  also have "dropWhile is_space s = q1 @ ''find'' @ s3"
    using q1(2) strip_prefix_append [OF s3] by simp
  also have "s3 = q2 @ ws2 @ dropWhile is_space (skip_quote s3)"
    using q2(2) by (simp add: ws2_def)
  also have "dropWhile is_space (skip_quote s3) = '':'' @ ws3 @ dropWhile is_space s6"
    using s6 by (simp add: ws3_def)
  also have "dropWhile is_space s6 = body @ ws4"
    using s8 ws4(2) by simp
  finally have "s = ws1 @ q1 @ ''find'' @ q2 @ ws2 @ '':'' @ ws3 @ body @ ws4" by simp
  with body q1(1) q2(1) ws4(1) show ?thesis
    unfolding find_wrapper_text_def ws1_def ws2_def ws3_def
    using spaces_takeWhile by blast
qed

text \<open>
  Claim C6. When the whole string matches the pattern of the find prefix, the working
  string becomes the body in braces; when the whole string does not match, it stays as it
  is; the later steps and the two parse attempts work on that string. Repairing
  \<^verbatim>\<open>find: {"a": 1}\<close> gives the mapping of \<^verbatim>\<open>a\<close> to 1.
\<close>

theorem find_prefix_unwrapped:
  \<open>(find_wrapper_text s body \<longrightarrow> find_unwrap s = body) \<and>
   ((\<forall>b. \<not> find_wrapper_text s b) \<longrightarrow> find_unwrap s = s) \<and>
   fix_llm_query (PStr s) =
     parse_attempts (flatten_newlines (strip_trailing_commas (comma_fix (find_unwrap s)))) \<and>
   fix_llm_query (PStr ''find: {"a": 1}'') = PDict [(PStr ''a'', PInt 1)]\<close>
proof (intro conjI impI)
  assume "find_wrapper_text s body"
  then show "find_unwrap s = body"
    by (simp add: find_unwrap_def match_find_complete)
next
  assume "\<forall>b. \<not> find_wrapper_text s b"
  then have "match_find s = None"
    using match_find_sound by (cases "match_find s") auto
  then show "find_unwrap s = s" by (simp add: find_unwrap_def)
next
  show "fix_llm_query (PStr s) =
     parse_attempts (flatten_newlines (strip_trailing_commas (comma_fix (find_unwrap s))))"
    by (simp add: fix_llm_query_def repair_text_def)
next
  show \<open>fix_llm_query (PStr ''find: {"a": 1}'') = PDict [(PStr ''a'', PInt 1)]\<close>
    by code_simp
qed

theorem find_prefix_unwrapped_witness:
  \<open>find_unwrap ''find: {"a": 1}'' = ''{"a": 1}'' \<and>
   find_unwrap ''"find" :\<newline>{"a": {"b": 2}} '' = ''{"a": {"b": 2}}'' \<and>
   find_unwrap ''x find: {"a": 1}'' = ''x find: {"a": 1}'' \<and>
   find_unwrap ''find: {"a": 1} x'' = ''find: {"a": 1} x''\<close>
proof -
  have 1: \<open>find_wrapper_text ''find: {"a": 1}'' ''{"a": 1}''\<close>
    by (rule match_find_sound) code_simp
  have 2: \<open>find_wrapper_text ''"find" :\<newline>{"a": {"b": 2}} '' ''{"a": {"b": 2}}''\<close>
    by (rule match_find_sound) code_simp
  have 3: \<open>\<forall>b. \<not> find_wrapper_text ''x find: {"a": 1}'' b\<close>
  proof (intro allI notI)
    fix b assume \<open>find_wrapper_text ''x find: {"a": 1}'' b\<close>
    then have \<open>match_find ''x find: {"a": 1}'' = Some b\<close> by (rule match_find_complete)
    moreover have \<open>match_find ''x find: {"a": 1}'' = None\<close> by code_simp
    ultimately show False by simp
  qed
  have 4: \<open>\<forall>b. \<not> find_wrapper_text ''find: {"a": 1} x'' b\<close>
  proof (intro allI notI)
    fix b assume \<open>find_wrapper_text ''find: {"a": 1} x'' b\<close>
    then have \<open>match_find ''find: {"a": 1} x'' = Some b\<close> by (rule match_find_complete)
    moreover have \<open>match_find ''find: {"a": 1} x'' = None\<close> by code_simp
    ultimately show False by simp
  qed
  from find_prefix_unwrapped [of \<open>''find: {"a": 1}''\<close> \<open>''{"a": 1}''\<close>] 1
    find_prefix_unwrapped [of \<open>''"find" :\<newline>{"a": {"b": 2}} ''\<close> \<open>''{"a": {"b": 2}}''\<close>] 2
    find_prefix_unwrapped [of \<open>''x find: {"a": 1}''\<close>] 3
    find_prefix_unwrapped [of \<open>''find: {"a": 1} x''\<close>] 4
  show ?thesis by blast
qed

subsection \<open>The comma repair\<close>










subsection \<open>Line breaks\<close>

text \<open>
  Putting a space for every line break commutes with the three steps before it: the
  patterns treat a line break and a space alike (both are whitespace, neither is a word
  character or one of the characters the patterns name).
\<close>

lemma nl_space [simp]: "is_space (nl_to_space c) = is_space c"
  by (cases "c = CHR 0x0A") (simp_all add: nl_to_space_def is_space_def)

lemma nl_word [simp]: "is_word (nl_to_space c) = is_word c"
  by (cases "c = CHR 0x0A") (simp_all add: nl_to_space_def is_word_def)

lemma nl_quote [simp]: "is_quote (nl_to_space c) = is_quote c"
  by (cases "c = CHR 0x0A") (simp_all add: nl_to_space_def is_quote_def)

lemma nl_eq: "x \<noteq> CHR 0x0A \<Longrightarrow> x \<noteq> CHR '' '' \<Longrightarrow> (nl_to_space c = x) = (c = x)"
  by (auto simp: nl_to_space_def)

lemma nl_eq' : "x \<noteq> CHR 0x0A \<Longrightarrow> x \<noteq> CHR '' '' \<Longrightarrow> (x = nl_to_space c) = (x = c)"
  by (auto simp: nl_to_space_def)

lemma nl_idem [simp]: "nl_to_space (nl_to_space c) = nl_to_space c"
  by (simp add: nl_to_space_def)

lemma flatten_idem: "flatten_newlines (flatten_newlines s) = flatten_newlines s"
  by (simp add: flatten_newlines_def)

lemma nl_dropWhile_space: "dropWhile is_space (map nl_to_space s) = map nl_to_space (dropWhile is_space s)"
  by (simp add: dropWhile_map comp_def)

lemma nl_takeWhile_space: "takeWhile is_space (map nl_to_space s) = map nl_to_space (takeWhile is_space s)"
  by (simp add: takeWhile_map comp_def)

lemma nl_dropWhile_word: "dropWhile is_word (map nl_to_space s) = map nl_to_space (dropWhile is_word s)"
  by (simp add: dropWhile_map comp_def)

lemma nl_takeWhile_word: "takeWhile is_word (map nl_to_space s) = map nl_to_space (takeWhile is_word s)"
  by (simp add: takeWhile_map comp_def)

lemma nl_dropWhile_brace:
  "dropWhile (\<lambda>x. x \<noteq> CHR ''}'') (map nl_to_space s) = map nl_to_space (dropWhile (\<lambda>x. x \<noteq> CHR ''}'') s)"
  by (simp add: dropWhile_map comp_def nl_eq)

lemma nl_takeWhile_brace:
  "takeWhile (\<lambda>x. x \<noteq> CHR ''}'') (map nl_to_space s) = map nl_to_space (takeWhile (\<lambda>x. x \<noteq> CHR ''}'') s)"
  by (simp add: takeWhile_map comp_def nl_eq)

lemma nl_skip_quote: "skip_quote (map nl_to_space s) = map nl_to_space (skip_quote s)"
  by (cases s) simp_all

lemma nl_strip_prefix:
  "CHR 0x0A \<notin> set p \<Longrightarrow> CHR '' '' \<notin> set p \<Longrightarrow>
   strip_prefix p (map nl_to_space s) = map_option (map nl_to_space) (strip_prefix p s)"
  by (induction p s rule: strip_prefix.induct) (auto simp: nl_to_space_def split: if_splits)

lemma nl_rstrip: "rstrip_space (map nl_to_space s) = map nl_to_space (rstrip_space s)"
  by (simp add: rstrip_space_def rev_map nl_dropWhile_space)

lemma nl_match_find: "match_find (map nl_to_space s) = map_option (map nl_to_space) (match_find s)"
proof (cases "strip_prefix ''find'' (skip_quote (dropWhile is_space s))")
  case None
  then show ?thesis
    by (simp add: match_find_def nl_dropWhile_space nl_skip_quote nl_strip_prefix del: dropWhile_eq_Nil_conv)
next
  case (Some s3)
  note s3 = this
  show ?thesis
  proof (cases "dropWhile is_space (skip_quote s3)")
    case Nil
    with s3 show ?thesis
      by (simp add: match_find_def nl_dropWhile_space nl_skip_quote nl_strip_prefix del: dropWhile_eq_Nil_conv)
  next
    case (Cons c s6)
    note c = this
    show ?thesis
    proof (cases "dropWhile is_space s6")
      case Nil
      with s3 c show ?thesis
        by (simp add: match_find_def nl_dropWhile_space nl_skip_quote nl_strip_prefix nl_eq del: dropWhile_eq_Nil_conv)
    next
      case (Cons b s8)
      note b = this
      show ?thesis
      proof (cases "c = CHR '':'' \<and> b = CHR ''{''")
        case False
        with s3 c b show ?thesis
          by (auto simp add: match_find_def nl_dropWhile_space nl_skip_quote nl_strip_prefix nl_eq
              simp del: dropWhile_eq_Nil_conv)
      next
        case True
        define body where "body = rstrip_space (b # s8)"
        have m1: "match_find s = (if 2 \<le> length body \<and> last body = CHR ''}'' then Some body else None)"
          using s3 c b True by (simp add: match_find_def body_def Let_def)
        have d6: "dropWhile is_space (map nl_to_space s6) = map nl_to_space (b # s8)"
          using b by (simp add: nl_dropWhile_space del: dropWhile_eq_Nil_conv)
        have d3: "dropWhile is_space (skip_quote (map nl_to_space s3)) = map nl_to_space (c # s6)"
          using c by (simp add: nl_dropWhile_space nl_skip_quote del: dropWhile_eq_Nil_conv)
        have p: "strip_prefix ''find'' (skip_quote (dropWhile is_space (map nl_to_space s)))
            = Some (map nl_to_space s3)"
          using s3 by (simp add: nl_dropWhile_space nl_skip_quote nl_strip_prefix)
        have cb: "nl_to_space c = CHR '':''" "nl_to_space b = CHR ''{''"
          using True by (simp_all add: nl_to_space_def)
        have rb: "rstrip_space (CHR ''{'' # map nl_to_space s8) = map nl_to_space body"
          unfolding body_def using nl_rstrip [of "b # s8"] cb by simp
        have m2: "match_find (map nl_to_space s) =
            (if 2 \<le> length (map nl_to_space body) \<and> last (map nl_to_space body) = CHR ''}''
             then Some (map nl_to_space body) else None)"
          unfolding match_find_def p option.case d3 d6 list.map list.case cb
          by (simp add: rb Let_def)
        have l: "last (map nl_to_space body) = CHR ''}'' \<longleftrightarrow> last body = CHR ''}''"
          if "2 \<le> length body"
          using that by (cases "body = []") (simp_all add: last_map nl_eq)
        show ?thesis unfolding m1 m2 using l by auto
      qed
    qed
  qed
qed

lemma nl_find_unwrap: "find_unwrap (map nl_to_space s) = map nl_to_space (find_unwrap s)"
  by (simp add: find_unwrap_def nl_match_find split: option.splits)

lemma nl_match_comma:
  "match_comma (map nl_to_space t) =
     map_option (\<lambda>(w, g, post). (map nl_to_space w, map nl_to_space g, map nl_to_space post))
       (match_comma t)"
proof (cases t)
  case Nil
  then show ?thesis by (simp add: match_comma_def)
next
  case (Cons c t1)
  note t = this
  show ?thesis
  proof (cases "skip_quote (dropWhile is_space t1)")
    case Nil
    then have "skip_quote (dropWhile is_space (map nl_to_space t1)) = []"
      by (simp add: nl_dropWhile_space nl_skip_quote del: dropWhile_eq_Nil_conv)
    with Nil t show ?thesis by (simp add: match_comma_def)
  next
    case (Cons d t4)
    note d = this
    then have d': "skip_quote (dropWhile is_space (map nl_to_space t1)) = nl_to_space d # map nl_to_space t4"
      by (simp add: nl_dropWhile_space nl_skip_quote del: dropWhile_eq_Nil_conv)
    show ?thesis
    proof (cases "dropWhile is_space (skip_quote (dropWhile is_word t4))")
      case Nil
      then have "dropWhile is_space (skip_quote (dropWhile is_word (map nl_to_space t4))) = []"
        by (simp add: nl_dropWhile_space nl_skip_quote nl_dropWhile_word del: dropWhile_eq_Nil_conv)
      with Nil t d d' show ?thesis
        by (simp add: match_comma_def nl_eq nl_takeWhile_word del: dropWhile_eq_Nil_conv)
    next
      case (Cons k u)
      then have k': "dropWhile is_space (skip_quote (dropWhile is_word (map nl_to_space t4)))
          = nl_to_space k # map nl_to_space u"
        by (simp add: nl_dropWhile_space nl_skip_quote nl_dropWhile_word del: dropWhile_eq_Nil_conv)
      have l: "[last (takeWhile (\<lambda>x. x \<noteq> CHR ''}'') (map nl_to_space u))]
          = map nl_to_space [last (takeWhile (\<lambda>x. x \<noteq> CHR ''}'') u)]"
        if "takeWhile (\<lambda>x. x \<noteq> CHR ''}'') u \<noteq> []"
        using that by (simp add: nl_takeWhile_brace last_map)
      show ?thesis
        unfolding match_comma_def t list.map list.case d d' Cons k' Let_def
        using l
        by (simp add: nl_eq nl_takeWhile_word nl_takeWhile_brace nl_dropWhile_brace
            nl_dropWhile_space map_tl del: dropWhile_eq_Nil_conv takeWhile_eq_Nil_iff)
    qed
  qed
qed

lemma nl_comma_fix: "comma_fix (map nl_to_space s) = map nl_to_space (comma_fix s)"
proof (induction s rule: length_induct)
  case (1 s)
  show ?case
  proof (cases s)
    case Nil
    then show ?thesis by simp
  next
    case (Cons c cs)
    show ?thesis
    proof (cases "match_comma s")
      case None
      then have m: "match_comma (map nl_to_space s) = None"
        by (simp add: nl_match_comma)
      have ih: "comma_fix (map nl_to_space cs) = map nl_to_space (comma_fix cs)"
        using 1 Cons by simp
      have a: "comma_fix s = c # comma_fix cs"
        using None Cons by (subst comma_fix.simps) simp
      have b: "comma_fix (map nl_to_space s) = nl_to_space c # comma_fix (map nl_to_space cs)"
        using m Cons by (subst comma_fix.simps) simp
      show ?thesis unfolding a b ih by simp
    next
      case (Some r)
      then obtain w g post where r: "match_comma s = Some (w, g, post)"
        by (cases r) auto
      then have m: "match_comma (map nl_to_space s)
          = Some (map nl_to_space w, map nl_to_space g, map nl_to_space post)"
        by (simp add: nl_match_comma)
      have ih: "comma_fix (map nl_to_space post) = map nl_to_space (comma_fix post)"
        using 1 match_comma_shorter [OF r] by simp
      have a: "comma_fix s = [CHR ''{'', CHR 0x22, CHR ''$''] @ w @ [CHR 0x22, CHR '':''] @ g @ [CHR ''}'']
                 @ comma_fix post"
        using r Cons by (subst comma_fix.simps) simp
      have b: "comma_fix (map nl_to_space s) =
          [CHR ''{'', CHR 0x22, CHR ''$''] @ map nl_to_space w @ [CHR 0x22, CHR '':'']
            @ map nl_to_space g @ [CHR ''}''] @ comma_fix (map nl_to_space post)"
        using m Cons by (subst comma_fix.simps) simp
      show ?thesis unfolding a b ih by (simp add: nl_to_space_def)
    qed
  qed
qed

lemma nl_match_trailing:
  "match_trailing (map nl_to_space t) =
     map_option (\<lambda>(g, r). (map nl_to_space g, map nl_to_space r)) (match_trailing t)"
proof (cases t)
  case Nil
  then show ?thesis by (simp add: match_trailing_def)
next
  case (Cons c t1)
  note t = this
  show ?thesis
  proof (cases "dropWhile is_space t1")
    case Nil
    then have "dropWhile is_space (map nl_to_space t1) = []"
      by (simp add: nl_dropWhile_space del: dropWhile_eq_Nil_conv)
    with Nil t show ?thesis by (simp add: match_trailing_def del: dropWhile_eq_Nil_conv)
  next
    case (Cons b r)
    then have b': "dropWhile is_space (map nl_to_space t1) = nl_to_space b # map nl_to_space r"
      by (simp add: nl_dropWhile_space del: dropWhile_eq_Nil_conv)
    show ?thesis
      unfolding match_trailing_def t list.map list.case Cons b'
      by (simp add: nl_eq nl_takeWhile_space)
  qed
qed

lemma nl_strip_trailing_commas:
  "strip_trailing_commas (map nl_to_space s) = map nl_to_space (strip_trailing_commas s)"
proof (induction s rule: length_induct)
  case (1 s)
  show ?case
  proof (cases s)
    case Nil
    then show ?thesis by simp
  next
    case (Cons c cs)
    show ?thesis
    proof (cases "match_trailing s")
      case None
      then have m: "match_trailing (map nl_to_space s) = None"
        by (simp add: nl_match_trailing)
      have ih: "strip_trailing_commas (map nl_to_space cs) = map nl_to_space (strip_trailing_commas cs)"
        using 1 Cons by simp
      have a: "strip_trailing_commas s = c # strip_trailing_commas cs"
        using None Cons by (subst strip_trailing_commas.simps) simp
      have b: "strip_trailing_commas (map nl_to_space s)
          = nl_to_space c # strip_trailing_commas (map nl_to_space cs)"
        using m Cons by (subst strip_trailing_commas.simps) simp
      show ?thesis unfolding a b ih by simp
    next
      case (Some p)
      then obtain g r where r: "match_trailing s = Some (g, r)"
        by (cases p) auto
      then have m: "match_trailing (map nl_to_space s) = Some (map nl_to_space g, map nl_to_space r)"
        by (simp add: nl_match_trailing)
      have ih: "strip_trailing_commas (map nl_to_space r) = map nl_to_space (strip_trailing_commas r)"
        using 1 match_trailing_shorter [OF r] by simp
      have a: "strip_trailing_commas s = g @ strip_trailing_commas r"
        using r Cons by (subst strip_trailing_commas.simps) simp
      have b: "strip_trailing_commas (map nl_to_space s)
          = map nl_to_space g @ strip_trailing_commas (map nl_to_space r)"
        using m Cons by (subst strip_trailing_commas.simps) simp
      show ?thesis unfolding a b ih by simp
    qed
  qed
qed

lemma repair_text_flatten: "repair_text (flatten_newlines s) = repair_text s"
  unfolding repair_text_def flatten_newlines_def nl_find_unwrap nl_comma_fix
    nl_strip_trailing_commas
  by (simp only: map_map comp_def nl_idem)

text \<open>
  Claim C8. Repairing a string gives the same value as repairing the string in which
  every line break has been replaced by one space, for every string (an object that is
  valid otherwise is a special case); and the working string that the two parse attempts
  see holds no line break.
\<close>

theorem newlines_flattened:
  "fix_llm_query (PStr (flatten_newlines s)) = fix_llm_query (PStr s) \<and>
   CHR 0x0A \<notin> set (repair_text s)"
proof
  show "fix_llm_query (PStr (flatten_newlines s)) = fix_llm_query (PStr s)"
    by (simp add: fix_llm_query_def repair_text_flatten)
  show "CHR 0x0A \<notin> set (repair_text s)"
    by (auto simp: repair_text_def flatten_newlines_def nl_to_space_def)
qed

theorem newlines_flattened_witness:
  \<open>fix_llm_query (PStr ''{"a":\<newline> 1,\<newline>"b": [2]}'') = PDict [(PStr ''a'', PInt 1), (PStr ''b'', PList [PInt 2])] \<and>
   fix_llm_query (PStr ''{"a":  1, "b": [2]}'') = PDict [(PStr ''a'', PInt 1), (PStr ''b'', PList [PInt 2])]\<close>
proof -
  have f: \<open>flatten_newlines ''{"a":\<newline> 1,\<newline>"b": [2]}'' = ''{"a":  1, "b": [2]}''\<close>
    by code_simp
  have e: \<open>fix_llm_query (PStr ''{"a":  1, "b": [2]}'') = PDict [(PStr ''a'', PInt 1), (PStr ''b'', PList [PInt 2])]\<close>
    by code_simp
  from newlines_flattened [of \<open>''{"a":\<newline> 1,\<newline>"b": [2]}''\<close>] f e show ?thesis
    by simp
qed

section \<open>Properties of the extraction\<close>

subsection \<open>The fenced block\<close>













subsection \<open>The brace span\<close>













subsection \<open>The three cases\<close>




section \<open>Properties of the orchestration\<close>

subsection \<open>Garbage and the check before the lookup\<close>





subsection \<open>A query that Python takes for false\<close>

text \<open>
  Claim C10. When the generated query is false in Python's sense, as the empty mapping
  is, the turn of the loop reports that no query could be generated; nothing is appended
  to the log and \<^verbatim>\<open>find\<close> is not called.
\<close>

theorem falsy_query_is_failure:
  assumes "\<not> truthy (fst (generate_mongodb_query llm user_question collection_fields w))"
  shows "main_step llm db collection_fields user_question w =
           Some (print (Line ''Failed to generate a query. Please try again.'')
                   (snd (generate_mongodb_query llm user_question collection_fields w))) \<and>
         log_file (the (main_step llm db collection_fields user_question w)) = log_file w \<and>
         find_calls (the (main_step llm db collection_fields user_question w)) = find_calls w"
proof -
  obtain q w1 where g: "generate_mongodb_query llm user_question collection_fields w = (q, w1)"
    by (cases "generate_mongodb_query llm user_question collection_fields w")
  with assms have f: "\<not> truthy q" by simp
  have w1: "log_file w1 = log_file w \<and> find_calls w1 = find_calls w"
    using g by (auto simp: generate_mongodb_query_def print_def split: option.splits)
  from g f have m: "main_step llm db collection_fields user_question w =
      Some (print (Line ''Failed to generate a query. Please try again.'') w1)"
    by (simp add: main_step_def)
  show ?thesis unfolding m g using w1 by (simp add: print_def)
qed

theorem falsy_query_is_failure_witness:
  \<open>fst (generate_mongodb_query (\<lambda>q fs. Some ''```json\<newline>{}\<newline>```'') ''cheap items'' [''price''] w0) = PDict [] \<and>
   is_dict (PDict []) \<and> \<not> truthy (PDict []) \<and>
   main_step (\<lambda>q fs. Some ''```json\<newline>{}\<newline>```'') (\<lambda>q. Some []) [''price''] ''cheap items'' w0 =
     Some (print (Line ''Failed to generate a query. Please try again.'') w0)\<close>
proof -
  have c: \<open>fix_llm_query (PStr (cleaned (strip ''```json\<newline>{}\<newline>```''))) = PDict []\<close>
    by code_simp
  have g: \<open>generate_mongodb_query (\<lambda>q fs. Some ''```json\<newline>{}\<newline>```'') ''cheap items'' [''price''] w0 = (PDict [], w0)\<close>
    by (simp add: generate_mongodb_query_def c)
  from falsy_query_is_failure [of "\<lambda>q fs. Some ''```json\<newline>{}\<newline>```''" "''cheap items''" "[''price'']" w0 "\<lambda>q. Some []"] g
  show ?thesis by simp
qed

end
